theory Spec2Isabelle
  imports Main "HOL-Library.Word" "HOL-Library.List_Lexorder" "HOL-Library.Char_ord"
    "HOL-Library.Product_Lexorder" "HOL-Library.Sublist"
begin

unbundle bit_operations_syntax

section \<open>Common types\<close>

type_synonym byte = "8 word"
type_synonym bytes = "byte list"
type_synonym int64 = "64 word"

section \<open>utils: FormatHTTPRange\<close>

text \<open>
  Go's \<^verbatim>\<open>strconv.FormatInt(i, 10)\<close> on an int64: the decimal digits of the
  magnitude, with a leading minus sign for a negative value.
\<close>

definition digit_chars :: string where
  "digit_chars = ''0123456789''"

fun dec_nat :: "nat \<Rightarrow> string" where
  "dec_nat n = (if n < 10 then [digit_chars ! n]
                else dec_nat (n div 10) @ [digit_chars ! (n mod 10)])"

declare dec_nat.simps [simp del]

definition dec_int :: "int \<Rightarrow> string" where
  "dec_int i = (if i < 0 then CHR ''-'' # dec_nat (nat (- i)) else dec_nat (nat i))"

definition FormatInt :: "int64 \<Rightarrow> string" where
  "FormatInt i = dec_int (sint i)"

text \<open>
  \<^verbatim>\<open>func FormatHTTPRange(offset int64, length int64) string\<close>: the sum
  \<^verbatim>\<open>offset+length-1\<close> is computed on int64 and wraps around.
\<close>

definition FormatHTTPRange :: "int64 \<Rightarrow> int64 \<Rightarrow> string" where
  "FormatHTTPRange offset len =
     ''bytes='' @ FormatInt offset @ ''-'' @ FormatInt (offset + len - 1)"

text \<open>
  The wire format in the words of the specification, on unbounded integers:
  \<^verbatim>\<open>bytes=<offset>-<offset+length-1>\<close>.
\<close>

definition http_range_spec :: "int \<Rightarrow> int \<Rightarrow> string" where
  "http_range_spec offset len = ''bytes='' @ dec_int offset @ ''-'' @ dec_int (offset + len - 1)"

section \<open>utils: ReadCloserToReader and ReaderToReadCloser\<close>

text \<open>
  Go interface values holding pointers are compared by address, and \<^verbatim>\<open>fakeReader\<close>
  carries the mutable field \<^verbatim>\<open>pipeR\<close>, so the stream objects live in an explicit
  store: the list of allocated objects, where \<^verbatim>\<open>&T{...}\<close> appends a new object. An
  interface value is nil or a pointer, the index of an object of the store. An object is
  one of the two wrapper structs of \<^verbatim>\<open>utils\<close>, or a stream of any other type, of which
  only one thing matters to the type assertions: whether it has a \<^verbatim>\<open>Close\<close> method,
  that is whether it is an \<^verbatim>\<open>io.ReadCloser\<close>.
\<close>

type_synonym ref = nat

type_synonym iface = "ref option"  \<comment> \<open>\<open>None\<close> is the nil interface value\<close>

datatype obj =
    Stream bool  \<comment> \<open>another type; \<open>True\<close> iff it implements \<^verbatim>\<open>Close\<close>\<close>
  | fakeReader iface bool  \<comment> \<open>fields \<^verbatim>\<open>rc\<close> and \<^verbatim>\<open>pipeR != nil\<close>\<close>
  | fakeReadCloser iface  \<comment> \<open>field \<^verbatim>\<open>r\<close>\<close>

type_synonym heap = "obj list"

text \<open>
  The object an interface value points to. There is none for nil, on which every type
  assertion fails. Go has no dangling pointers: a value is nil or points into the store.
\<close>

definition lookup :: "heap \<Rightarrow> iface \<Rightarrow> obj option" where
  "lookup h v = (case v of None \<Rightarrow> None | Some a \<Rightarrow> if a < length h then Some (h ! a) else None)"

definition new :: "heap \<Rightarrow> obj \<Rightarrow> iface \<times> heap" where
  "new h v = (Some (length h), h @ [v])"

text \<open>\<^verbatim>\<open>fakeReadCloser\<close> has \<^verbatim>\<open>Read\<close> and \<^verbatim>\<open>Close\<close>; \<^verbatim>\<open>fakeReader\<close> has only \<^verbatim>\<open>Read\<close>.\<close>

fun is_ReadCloser :: "obj \<Rightarrow> bool" where
  "is_ReadCloser (Stream c) = c"
| "is_ReadCloser (fakeReader rc p) = False"
| "is_ReadCloser (fakeReadCloser r) = True"

fun is_fakeReadCloser :: "obj \<Rightarrow> bool" where
  "is_fakeReadCloser (fakeReadCloser r) = True"
| "is_fakeReadCloser v = False"

text \<open>A \<^verbatim>\<open>fakeReader\<close> whose \<^verbatim>\<open>pipeR\<close> is still nil: nothing was read through it.\<close>

fun is_unread_fakeReader :: "obj \<Rightarrow> bool" where
  "is_unread_fakeReader (fakeReader rc p) = (\<not> p)"
| "is_unread_fakeReader v = False"

definition ReadCloserToReader :: "heap \<Rightarrow> iface \<Rightarrow> iface \<times> heap" where
  "ReadCloserToReader h in' =
     (case lookup h in' of
        Some (fakeReadCloser r) \<Rightarrow> (r, h)
      | _ \<Rightarrow> new h (fakeReader in' False))"

text \<open>
  \<^verbatim>\<open>(*fakeReader).Read\<close>: the first read starts the copying goroutine and stores the
  pipe; only this effect on the store is modelled.
\<close>

definition fakeReader_Read :: "heap \<Rightarrow> ref \<Rightarrow> heap" where
  "fakeReader_Read h fr =
     (case lookup h (Some fr) of
        Some (fakeReader rc p) \<Rightarrow> h[fr := fakeReader rc True]
      | _ \<Rightarrow> h)"

definition ReaderToReadCloser :: "heap \<Rightarrow> iface \<Rightarrow> iface \<times> heap" where
  "ReaderToReadCloser h in' =
     (case lookup h in' of
        Some (fakeReader rc False) \<Rightarrow> (rc, h)
      | Some v \<Rightarrow> if is_ReadCloser v then (in', h) else new h (fakeReadCloser in')
      | None \<Rightarrow> new h (fakeReadCloser in'))"

text \<open>
  The two round trips, and the first of them with a read through the wrapper in
  between.
\<close>

definition rc_roundtrip :: "heap \<Rightarrow> iface \<Rightarrow> iface \<times> heap" where
  "rc_roundtrip h rc = (case ReadCloserToReader h rc of (r, h1) \<Rightarrow> ReaderToReadCloser h1 r)"

definition r_roundtrip :: "heap \<Rightarrow> iface \<Rightarrow> iface \<times> heap" where
  "r_roundtrip h r = (case ReaderToReadCloser h r of (rc, h1) \<Rightarrow> ReadCloserToReader h1 rc)"

definition rc_read_roundtrip :: "heap \<Rightarrow> iface \<Rightarrow> iface \<times> heap" where
  "rc_read_roundtrip h rc =
     (case ReadCloserToReader h rc of
        (Some fr, h1) \<Rightarrow> ReaderToReadCloser (fakeReader_Read h1 fr) (Some fr)
      | (None, h1) \<Rightarrow> ReaderToReadCloser h1 None)"

text \<open>
  The values the round trips are stated for. A ReadCloser that is not one of the
  wrappers of \<^verbatim>\<open>utils\<close>: nil, or an object of another type with \<^verbatim>\<open>Close\<close>. A plain
  Reader: nil, or an object that has no \<^verbatim>\<open>Close\<close> and is not a \<^verbatim>\<open>fakeReader\<close> that
  nothing was read through.
\<close>

definition other_ReadCloser :: "heap \<Rightarrow> iface \<Rightarrow> bool" where
  "other_ReadCloser h rc =
     (case rc of
        None \<Rightarrow> True
      | Some a \<Rightarrow> (case lookup h rc of
                     None \<Rightarrow> False
                   | Some v \<Rightarrow> is_ReadCloser v \<and> \<not> is_fakeReadCloser v))"

definition plain_Reader :: "heap \<Rightarrow> iface \<Rightarrow> bool" where
  "plain_Reader h r =
     (case r of
        None \<Rightarrow> True
      | Some a \<Rightarrow> (case lookup h r of
                     None \<Rightarrow> False
                   | Some v \<Rightarrow> \<not> is_ReadCloser v \<and> \<not> is_unread_fakeReader v))"

section \<open>Outcomes of a call\<close>

text \<open>
  The functions below have no error result: they return or they panic. The panic values
  are the ones the source raises, the error of a failed query or scan, or one of its
  string messages.
\<close>

datatype panic =
    ErrNoRows  \<comment> \<open>\<^verbatim>\<open>panic(err)\<close> after a query that found no row\<close>
  | ScanError  \<comment> \<open>\<^verbatim>\<open>panic(err)\<close> after \<^verbatim>\<open>Scan\<close> of a NULL into a string\<close>
  | InvalidRow  \<comment> \<open>"database gave invalid row??"\<close>
  | UnknownStorageKind
  | UnknownCompression
  | BlobIDLength  \<comment> \<open>"sanity check" on \<^verbatim>\<open>len(blobID)\<close>\<close>
  | Misaligned  \<comment> \<open>"got misaligned somehow. gap between entries??"\<close>
  | ReadFailed  \<comment> \<open>\<^verbatim>\<open>panic(err)\<close> in \<^verbatim>\<open>utils.Copy\<close> or after \<^verbatim>\<open>ReadAll\<close>\<close>
  | EntryWrongSize  \<comment> \<open>"entry was wrong size"\<close>
  | WrongData  \<comment> \<open>"decompressed to wrong data!"\<close>
  | PaddingNotZero  \<comment> \<open>"end padding was not all zeros!"\<close>
  | BlobSizeMismatch  \<comment> \<open>"sanity check" on the blob size\<close>
  | BlobHashMismatch  \<comment> \<open>"sanity check" on the blob hash\<close>
  | LineLength  \<comment> \<open>"Line length is not 64"\<close>
  | HexError  \<comment> \<open>\<^verbatim>\<open>panic(err)\<close> after \<^verbatim>\<open>hex.DecodeString\<close>\<close>

datatype 'a outcome = Return 'a | Panic panic

fun is_Return :: "'a outcome \<Rightarrow> bool" where
  "is_Return (Return v) = True"
| "is_Return (Panic p) = False"

text \<open>
  A byte stream handed around as \<^verbatim>\<open>io.Reader\<close>: read to its end it either delivers a
  finite sequence of bytes, or it fails.
\<close>

datatype stream_error = BackendError | DecompressError

type_synonym stream = "stream_error + bytes"

section \<open>Metadata store\<close>

text \<open>
  The tables, with the columns that the queries of \<^verbatim>\<open>CatReadCloser\<close>,
  \<^verbatim>\<open>DownloadEntireBlob\<close> and \<^verbatim>\<open>BlobReaderParanoia\<close> name, and the \<^verbatim>\<open>hashes\<close> table.
  \<^verbatim>\<open>compression_alg\<close> is the one nullable column among them.
\<close>

record hashes_row =
  h_hash :: bytes
  h_size :: int

record blobs_row =
  b_blob_id :: bytes
  b_encryption_key :: bytes
  b_padding_key :: bytes
  b_size :: int
  b_final_hash :: bytes

record blob_entries_row =
  e_hash :: bytes
  e_blob_id :: bytes
  e_encryption_key :: bytes
  e_final_size :: int
  e_offset :: int
  e_compression_alg :: "string option"

record blob_storage_row =
  bs_blob_id :: bytes
  bs_storage_id :: bytes
  bs_path :: string

record storage_row =
  s_storage_id :: bytes
  s_readable_label :: string
  s_type :: string
  s_identifier :: string
  s_root_path :: string

record database =
  hashes :: "hashes_row list"
  blobs :: "blobs_row list"
  blob_entries :: "blob_entries_row list"
  blob_storage :: "blob_storage_row list"
  storage :: "storage_row list"

section \<open>External collaborators\<close>

text \<open>
  Modelled from the spec: the packages \<^verbatim>\<open>storage\<close>, \<^verbatim>\<open>compression\<close> and \<^verbatim>\<open>crypto\<close>
  and the SHA-256 of the Go library are not part of the sources at hand. A storage is an
  identity and a store of named objects; a compression algorithm is a compressor and a
  decompressor, the latter telling how many bytes of its input it pulled; the registries
  and the keystream of the cipher are parameters, collected in \<open>env\<close>.
\<close>

record StorageDescriptor =
  StorageID :: bytes
  Kind :: string
  Identifier :: string
  RootPath :: string

record Storage =
  GetID :: bytes
  objects :: "string \<Rightarrow> bytes option"

record Compression =
  Compress :: "bytes \<Rightarrow> bytes"
  Decompress :: "bytes \<Rightarrow> (bytes \<times> nat) option"

record env =
  StorageDataToStorage :: "StorageDescriptor \<Rightarrow> Storage option"
  StorageSelect :: "string \<Rightarrow> Storage option"
  ByAlgName :: "string \<Rightarrow> Compression option"
  keystream :: "bytes \<Rightarrow> int \<Rightarrow> byte"
  sha256 :: "bytes \<Rightarrow> bytes"

text \<open>
  Modelled from the spec: \<open>download_section(path, offset, length)\<close> returns the bytes
  \<open>[offset, offset+length)\<close> of the named object, exactly \<open>length\<close> bytes, or fails.
\<close>

definition DownloadSection :: "Storage \<Rightarrow> string \<Rightarrow> int \<Rightarrow> int \<Rightarrow> stream" where
  "DownloadSection st path offset len =
     (case objects st path of
        None \<Rightarrow> Inl BackendError
      | Some obj \<Rightarrow>
          if 0 \<le> offset \<and> 0 \<le> len \<and> offset + len \<le> int (length obj)
          then Inr (take (nat len) (drop (nat offset) obj))
          else Inl BackendError)"

text \<open>
  Modelled from the spec: \<open>decrypt_blob_entry(src, offset, key)\<close> is a seekable stream
  cipher, the keystream addressed by the absolute byte offset inside the blob; the output
  has the length of the input. Encryption is the same transform.
\<close>

definition crypt_bytes :: "(bytes \<Rightarrow> int \<Rightarrow> byte) \<Rightarrow> bytes \<Rightarrow> int \<Rightarrow> bytes \<Rightarrow> bytes" where
  "crypt_bytes ks src offset key =
     map (\<lambda>(i, b). b XOR ks key (offset + int i)) (enumerate 0 src)"

definition EncryptBlobEntry :: "(bytes \<Rightarrow> int \<Rightarrow> byte) \<Rightarrow> bytes \<Rightarrow> int \<Rightarrow> bytes \<Rightarrow> bytes" where
  "EncryptBlobEntry ks src offset key = crypt_bytes ks src offset key"

definition DecryptBlobEntry :: "(bytes \<Rightarrow> int \<Rightarrow> byte) \<Rightarrow> stream \<Rightarrow> int \<Rightarrow> bytes \<Rightarrow> stream" where
  "DecryptBlobEntry ks src offset key =
     (case src of Inl err \<Rightarrow> Inl err | Inr bs \<Rightarrow> Inr (crypt_bytes ks bs offset key))"

text \<open>The stream a decompressor returns, read to its end.\<close>

definition Decompress_stream :: "Compression \<Rightarrow> stream \<Rightarrow> stream" where
  "Decompress_stream c src =
     (case src of
        Inl err \<Rightarrow> Inl err
      | Inr bs \<Rightarrow> (case Decompress c bs of None \<Rightarrow> Inl DecompressError
                                         | Some (out, used) \<Rightarrow> Inr out))"

section \<open>download: CatReadCloser\<close>

type_synonym cat_row = "blob_entries_row \<times> blobs_row \<times> blob_storage_row \<times> storage_row"

text \<open>The inner joins of the query, restricted by \<^verbatim>\<open>WHERE blob_entries.hash = ?\<close>.\<close>

definition cat_join :: "database \<Rightarrow> bytes \<Rightarrow> cat_row list" where
  "cat_join db hash =
     [(e, b, bs, s).
        e \<leftarrow> blob_entries db, e_hash e = hash,
        b \<leftarrow> blobs db, b_blob_id b = e_blob_id e,
        bs \<leftarrow> blob_storage db, bs_blob_id bs = b_blob_id b,
        s \<leftarrow> storage db, s_storage_id s = bs_storage_id bs]"

definition cat_label :: "cat_row \<Rightarrow> string" where
  "cat_label row = (case row of (e, b, bs, s) \<Rightarrow> s_readable_label s)"

text \<open>
  \<^verbatim>\<open>ORDER BY storage.readable_label\<close>: the rows ascending by label, text compared byte
  by byte; \<^verbatim>\<open>QueryRow\<close> keeps the first row.
\<close>

definition cat_rows :: "database \<Rightarrow> bytes \<Rightarrow> cat_row list" where
  "cat_rows db hash = sort_key cat_label (cat_join db hash)"

definition cat_select :: "database \<Rightarrow> bytes \<Rightarrow> cat_row option" where
  "cat_select db hash = (case cat_rows db hash of [] \<Rightarrow> None | row # rest \<Rightarrow> Some row)"

text \<open>\<^verbatim>\<open>utils.SliceToArr\<close>: the 32 bytes of the slice, or a panic.\<close>

definition SliceToArr :: "bytes \<Rightarrow> bytes outcome" where
  "SliceToArr in' = (if length in' \<noteq> 32 then Panic InvalidRow else Return in')"

text \<open>
  \<^verbatim>\<open>crypto.DecryptBlobEntry(reader, offset, key)\<close> over the downloaded section: the key
  is the column \<^verbatim>\<open>blobs.encryption_key\<close> of the selected row.
\<close>

definition cat_decrypted :: "env \<Rightarrow> cat_row \<Rightarrow> Storage \<Rightarrow> stream" where
  "cat_decrypted env row storageR =
     (case row of (e, b, bs, s) \<Rightarrow>
        DecryptBlobEntry (keystream env)
          (DownloadSection storageR (bs_path bs) (e_offset e) (e_final_size e))
          (e_offset e) (b_encryption_key b))"

text \<open>The body of \<^verbatim>\<open>CatReadCloser\<close> after the scan of the selected row.\<close>

definition cat_open :: "env \<Rightarrow> cat_row \<Rightarrow> stream outcome" where
  "cat_open env row =
     (case row of (e, b, bs, s) \<Rightarrow>
        (case e_compression_alg e of
           None \<Rightarrow> Panic ScanError
         | Some compressionAlg \<Rightarrow>
            (case SliceToArr (s_storage_id s) of
               Panic p \<Rightarrow> Panic p
             | Return storageID \<Rightarrow>
                (case StorageDataToStorage env
                        \<lparr>StorageID = storageID, Kind = s_type s,
                         Identifier = s_identifier s, RootPath = s_root_path s\<rparr> of
                   None \<Rightarrow> Panic UnknownStorageKind
                 | Some storageR \<Rightarrow>
                    (case ByAlgName env compressionAlg of
                       None \<Rightarrow> Panic UnknownCompression
                     | Some c \<Rightarrow>
                         Return (Decompress_stream c (cat_decrypted env row storageR)))))))"

definition CatReadCloser :: "env \<Rightarrow> database \<Rightarrow> bytes \<Rightarrow> stream outcome" where
  "CatReadCloser env db hash =
     (case cat_select db hash of
        None \<Rightarrow> Panic ErrNoRows
      | Some row \<Rightarrow> cat_open env row)"

definition Cat :: "env \<Rightarrow> database \<Rightarrow> bytes \<Rightarrow> stream outcome" where
  "Cat env db hash = CatReadCloser env db hash"

section \<open>paranoia: BlobReaderParanoia\<close>

text \<open>
  \<^verbatim>\<open>SELECT ... FROM blob_entries WHERE blob_id = ? ORDER BY offset, final_size\<close>.
\<close>

definition entry_key :: "blob_entries_row \<Rightarrow> int \<times> int" where
  "entry_key e = (e_offset e, e_final_size e)"

definition paranoia_rows :: "database \<Rightarrow> bytes \<Rightarrow> blob_entries_row list" where
  "paranoia_rows db blobID =
     sort_key entry_key (filter (\<lambda>e. e_blob_id e = blobID) (blob_entries db))"

text \<open>
  \<^verbatim>\<open>io.LimitReader(..., entrySize)\<close> over the teed reader, of which \<open>pos\<close> bytes were
  read so far (\<^verbatim>\<open>hasherPostEnc.Size()\<close>): the bytes it can deliver. A limit that is not
  positive gives EOF without a read; otherwise a failing reader fails.
\<close>

definition limited :: "stream \<Rightarrow> int \<Rightarrow> int \<Rightarrow> bytes option" where
  "limited rd pos n =
     (case rd of
        Inr data \<Rightarrow> Some (take (nat n) (drop (nat pos) data))
      | Inl err \<Rightarrow> if n \<le> 0 then Some [] else None)"

text \<open>
  \<^verbatim>\<open>crypto.DecryptBlobEntry(encReader, offset, key)\<close> in the loop: the key is the column
  \<^verbatim>\<open>blob_entries.encryption_key\<close> of the entry.
\<close>

definition entry_decrypted :: "env \<Rightarrow> blob_entries_row \<Rightarrow> bytes \<Rightarrow> bytes" where
  "entry_decrypted env e view = crypt_bytes (keystream env) view (e_offset e) (e_encryption_key e)"

text \<open>
  \<^verbatim>\<open>utils.Copy(&verify, ...)\<close>: the entry is decrypted, limited to its size and
  decompressed into a fresh hasher; the result is the decompressed bytes and the position
  of the teed reader afterwards. The decompressor cannot pull more than the limited
  reader delivers. The sizes are int64 in the source; they are counts of bytes read and
  database columns compared with them, far from the bounds, and are integers here.
\<close>

definition drain_entry ::
  "env \<Rightarrow> stream \<Rightarrow> int \<Rightarrow> blob_entries_row \<Rightarrow> string \<Rightarrow> (bytes \<times> int) outcome" where
  "drain_entry env rd pos e compressionAlg =
     (case ByAlgName env compressionAlg of
        None \<Rightarrow> Panic UnknownCompression
      | Some c \<Rightarrow>
         (case limited rd pos (e_final_size e) of
            None \<Rightarrow> Panic ReadFailed
          | Some view \<Rightarrow>
             (case Decompress c (entry_decrypted env e view) of
                None \<Rightarrow> Panic ReadFailed
              | Some (out, used) \<Rightarrow> Return (out, pos + int (min used (length view))))))"

text \<open>
  One iteration of the loop over the rows, from the position \<open>pos\<close> of the teed reader
  (\<^verbatim>\<open>hasherPostEnc.Size()\<close>) to the position after the entry.
\<close>

definition paranoia_entry :: "env \<Rightarrow> stream \<Rightarrow> int \<Rightarrow> blob_entries_row \<Rightarrow> int outcome" where
  "paranoia_entry env rd pos e =
     (case e_compression_alg e of
        None \<Rightarrow> Panic ScanError
      | Some compressionAlg \<Rightarrow>
          if pos \<noteq> e_offset e then Panic Misaligned
          else
            (case drain_entry env rd pos e compressionAlg of
               Panic p \<Rightarrow> Panic p
             | Return (out, pos') \<Rightarrow>
                 if pos' \<noteq> e_offset e + e_final_size e then Panic EntryWrongSize
                 else if e_hash e \<noteq> sha256 env out then Panic WrongData
                 else Return pos'))"

text \<open>
  An entry is started when its row was scanned and the alignment check passed: the
  source then logs its expected hash and drains it.
\<close>

definition entry_started :: "int \<Rightarrow> blob_entries_row \<Rightarrow> bool" where
  "entry_started pos e = (e_compression_alg e \<noteq> None \<and> pos = e_offset e)"

text \<open>The loop, returning the entries it started, in order, and its outcome.\<close>

fun paranoia_loop ::
  "env \<Rightarrow> stream \<Rightarrow> int \<Rightarrow> blob_entries_row list \<Rightarrow> blob_entries_row list \<times> int outcome" where
  "paranoia_loop env rd pos [] = ([], Return pos)"
| "paranoia_loop env rd pos (e # es) =
     (case paranoia_entry env rd pos e of
        Panic p \<Rightarrow> (if entry_started pos e then [e] else [], Panic p)
      | Return pos' \<Rightarrow>
          (case paranoia_loop env rd pos' es of (started, r) \<Rightarrow> (e # started, r)))"

text \<open>
  After the loop: the rest of the reader is decrypted under the padding key from the
  current position and must be zero; then the size and the hash of all that was read
  are compared with the row of the blob.
\<close>

definition paranoia_tail :: "env \<Rightarrow> blobs_row \<Rightarrow> stream \<Rightarrow> int \<Rightarrow> int outcome" where
  "paranoia_tail env b rd pos =
     (case rd of
        Inl err \<Rightarrow> Panic ReadFailed
      | Inr data \<Rightarrow>
         (let rest = drop (nat pos) data;
              remain = crypt_bytes (keystream env) rest pos (b_padding_key b);
              size' = pos + int (length rest)
          in if remain \<noteq> replicate (length remain) 0 then Panic PaddingNotZero
             else if size' \<noteq> b_size b then Panic BlobSizeMismatch
             else if b_final_hash b \<noteq> sha256 env (take (nat size') data)
               then Panic BlobHashMismatch
             else Return (b_size b)))"

definition BlobReaderParanoia ::
  "env \<Rightarrow> database \<Rightarrow> stream \<Rightarrow> bytes \<Rightarrow> blob_entries_row list \<times> int outcome" where
  "BlobReaderParanoia env db outerReader blobID =
     (if length blobID \<noteq> 32 then ([], Panic BlobIDLength)
      else
        (case find (\<lambda>b. b_blob_id b = blobID) (blobs db) of
           None \<Rightarrow> ([], Panic ErrNoRows)
         | Some b \<Rightarrow>
            (case paranoia_loop env outerReader 0 (paranoia_rows db blobID) of
               (started, Panic p) \<Rightarrow> (started, Panic p)
             | (started, Return pos) \<Rightarrow> (started, paranoia_tail env b outerReader pos))))"

definition DownloadEntireBlob :: "database \<Rightarrow> bytes \<Rightarrow> Storage \<Rightarrow> stream outcome" where
  "DownloadEntireBlob db blobID st =
     (case find (\<lambda>b. b_blob_id b = blobID) (blobs db) of
        None \<Rightarrow> Panic ErrNoRows
      | Some b \<Rightarrow>
         (case find (\<lambda>bs. bs_blob_id bs = blobID \<and> bs_storage_id bs = GetID st)
                 (blob_storage db) of
            None \<Rightarrow> Panic ErrNoRows
          | Some bs \<Rightarrow> Return (DownloadSection st (bs_path bs) 0 (b_size b))))"

section \<open>paranoia: BlobParanoia\<close>

text \<open>\<^verbatim>\<open>strings.Split(s, "\n")\<close>: one more piece than there are newlines.\<close>

fun split_lines :: "string \<Rightarrow> string list" where
  "split_lines [] = [[]]"
| "split_lines (c # cs) =
     (if c = CHR 0x0A then [] # split_lines cs
      else (case split_lines cs of [] \<Rightarrow> [[c]] | l # ls \<Rightarrow> (c # l) # ls))"

text \<open>
  \<^verbatim>\<open>hex.DecodeString\<close> of the Go library: two hexadecimal digits of either case for
  each byte; an odd length or another character is an error.
\<close>

definition fromHexChar :: "char \<Rightarrow> byte option" where
  "fromHexChar c =
     (let n = of_char c :: nat
      in if 48 \<le> n \<and> n \<le> 57 then Some (of_nat (n - 48))
         else if 97 \<le> n \<and> n \<le> 102 then Some (of_nat (n - 97 + 10))
         else if 65 \<le> n \<and> n \<le> 70 then Some (of_nat (n - 65 + 10))
         else None)"

fun DecodeString :: "string \<Rightarrow> bytes option" where
  "DecodeString [] = Some []"
| "DecodeString [c] = None"
| "DecodeString (c # d # cs) =
     (case (fromHexChar c, fromHexChar d) of
        (Some a, Some b) \<Rightarrow>
          (case DecodeString cs of None \<Rightarrow> None | Some bs \<Rightarrow> Some ((push_bit 4 a OR b) # bs))
      | _ \<Rightarrow> None)"

text \<open>
  The loop over the lines, with the verification of one blob as a parameter: it returns
  the blob ids handed to the verification, in order, and the sum of the sizes or the
  panic that ended the run.
\<close>

fun paranoia_lines ::
  "(bytes \<Rightarrow> int outcome) \<Rightarrow> string list \<Rightarrow> int \<Rightarrow> bytes list \<times> int outcome" where
  "paranoia_lines verify [] sz = ([], Return sz)"
| "paranoia_lines verify (line # rest) sz =
     (if line = [] then paranoia_lines verify rest sz
      else if length line \<noteq> 64 then ([], Panic LineLength)
      else
        (case DecodeString line of
           None \<Rightarrow> ([], Panic HexError)
         | Some blobID \<Rightarrow>
            (case verify blobID of
               Panic p \<Rightarrow> ([blobID], Panic p)
             | Return n \<Rightarrow>
                (case paranoia_lines verify rest (sz + n) of
                   (ids, r) \<Rightarrow> (blobID # ids, r)))))"

text \<open>\<^verbatim>\<open>BlobReaderParanoia(DownloadEntireBlob(blobID, storage), blobID, storage)\<close>.\<close>

definition verify_blob :: "env \<Rightarrow> database \<Rightarrow> Storage \<Rightarrow> bytes \<Rightarrow> int outcome" where
  "verify_blob env db st blobID =
     (case DownloadEntireBlob db blobID st of
        Panic p \<Rightarrow> Panic p
      | Return rd \<Rightarrow> snd (BlobReaderParanoia env db rd blobID))"

definition BlobParanoia :: "env \<Rightarrow> database \<Rightarrow> string \<Rightarrow> string \<Rightarrow> bytes list \<times> int outcome" where
  "BlobParanoia env db label stdin =
     (case StorageSelect env label of
        None \<Rightarrow> ([], Return 0)
      | Some st \<Rightarrow> paranoia_lines (verify_blob env db st) (split_lines stdin) 0)"

section \<open>A small installation\<close>

text \<open>
  One blob of 16 bytes on two storages labelled \<open>bb\<close> and \<open>aa\<close>: an empty entry and an
  entry of five bytes, both at offset 0, and eleven bytes of padding. The entries are
  stored without compression (the algorithm named by the empty string); the keystream
  and the digest are small stand-ins.
\<close>

definition ex_keystream :: "bytes \<Rightarrow> int \<Rightarrow> byte" where
  "ex_keystream key i = of_int i + (case key of [] \<Rightarrow> 0 | k # ks \<Rightarrow> k)"

definition ex_digest :: "bytes \<Rightarrow> bytes" where
  "ex_digest bs = replicate 32 (sum_list bs + of_nat (length bs))"

definition ex_no_compression :: Compression where
  "ex_no_compression = \<lparr>Compress = (\<lambda>bs. bs), Decompress = (\<lambda>bs. Some (bs, length bs))\<rparr>"

definition ex_content :: bytes where
  "ex_content = [104, 101, 108, 108, 111]"

definition ex_key :: bytes where
  "ex_key = replicate 16 7"

definition ex_padding_key :: bytes where
  "ex_padding_key = replicate 16 9"

definition ex_object :: bytes where
  "ex_object = EncryptBlobEntry ex_keystream ex_content 0 ex_key
             @ EncryptBlobEntry ex_keystream (replicate 11 0) 5 ex_padding_key"

definition ex_blob_id :: bytes where
  "ex_blob_id = replicate 32 1"

definition ex_storage :: "bytes \<Rightarrow> Storage" where
  "ex_storage sid =
     \<lparr>GetID = sid, objects = (\<lambda>path. if path = ''p'' then Some ex_object else None)\<rparr>"

definition ex_env :: env where
  "ex_env =
     \<lparr>StorageDataToStorage = (\<lambda>d. Some (ex_storage (StorageID d))),
      StorageSelect = (\<lambda>label. if label = ''aa'' then Some (ex_storage (replicate 32 3))
                               else if label = ''bb'' then Some (ex_storage (replicate 32 2))
                               else None),
      ByAlgName = (\<lambda>alg. if alg = [] then Some ex_no_compression else None),
      keystream = ex_keystream,
      sha256 = ex_digest\<rparr>"

definition ex_entry :: blob_entries_row where
  "ex_entry =
     \<lparr>e_hash = ex_digest ex_content, e_blob_id = ex_blob_id, e_encryption_key = ex_key,
      e_final_size = 5, e_offset = 0, e_compression_alg = Some []\<rparr>"

definition ex_empty_entry :: blob_entries_row where
  "ex_empty_entry =
     \<lparr>e_hash = ex_digest [], e_blob_id = ex_blob_id, e_encryption_key = ex_key,
      e_final_size = 0, e_offset = 0, e_compression_alg = Some []\<rparr>"

definition ex_blob :: blobs_row where
  "ex_blob =
     \<lparr>b_blob_id = ex_blob_id, b_encryption_key = ex_key, b_padding_key = ex_padding_key,
      b_size = 16, b_final_hash = ex_digest ex_object\<rparr>"

definition ex_storage_bb :: storage_row where
  "ex_storage_bb =
     \<lparr>s_storage_id = replicate 32 2, s_readable_label = ''bb'', s_type = ''disk'',
      s_identifier = ''one'', s_root_path = ''/''\<rparr>"

definition ex_storage_aa :: storage_row where
  "ex_storage_aa =
     \<lparr>s_storage_id = replicate 32 3, s_readable_label = ''aa'', s_type = ''disk'',
      s_identifier = ''two'', s_root_path = ''/''\<rparr>"

definition ex_db :: database where
  "ex_db =
     \<lparr>hashes = [\<lparr>h_hash = ex_digest ex_content, h_size = 5\<rparr>,
                \<lparr>h_hash = ex_digest [], h_size = 0\<rparr>],
      blobs = [ex_blob],
      blob_entries = [ex_entry, ex_empty_entry],
      blob_storage = [\<lparr>bs_blob_id = ex_blob_id, bs_storage_id = replicate 32 2, bs_path = ''p''\<rparr>,
                      \<lparr>bs_blob_id = ex_blob_id, bs_storage_id = replicate 32 3, bs_path = ''p''\<rparr>],
      storage = [ex_storage_bb, ex_storage_aa]\<rparr>"

text \<open>
  The same installation where the key column of the entry differs from the key of its
  blob, and one with no entries at all.
\<close>

definition ex_db_other_key :: database where
  "ex_db_other_key = ex_db\<lparr>blob_entries := [ex_entry\<lparr>e_encryption_key := replicate 16 8\<rparr>]\<rparr>"

definition ex_db_empty :: database where
  "ex_db_empty = \<lparr>hashes = [], blobs = [], blob_entries = [], blob_storage = [], storage = []\<rparr>"

text \<open>
  The installation with the rows of each table listed in the opposite order; one where
  the storage ids have 16 bytes; one where the compression algorithm of the entry is
  NULL; and two that differ only in the order of two placements of the blob on the
  storage \<open>aa\<close>, at the paths \<open>p\<close> and \<open>q\<close>.
\<close>

definition ex_db_reordered :: database where
  "ex_db_reordered =
     ex_db\<lparr>blob_entries := rev (blob_entries ex_db), blob_storage := rev (blob_storage ex_db),
            storage := rev (storage ex_db)\<rparr>"

definition ex_db_short_id :: database where
  "ex_db_short_id =
     ex_db\<lparr>blob_storage :=
              [\<lparr>bs_blob_id = ex_blob_id, bs_storage_id = replicate 16 3, bs_path = ''p''\<rparr>],
            storage := [ex_storage_aa\<lparr>s_storage_id := replicate 16 3\<rparr>]\<rparr>"

definition ex_db_null_alg :: database where
  "ex_db_null_alg = ex_db\<lparr>blob_entries := [ex_entry\<lparr>e_compression_alg := None\<rparr>]\<rparr>"

definition ex_placement :: "byte \<Rightarrow> string \<Rightarrow> blob_storage_row" where
  "ex_placement sid path =
     \<lparr>bs_blob_id = ex_blob_id, bs_storage_id = replicate 32 sid, bs_path = path\<rparr>"

definition ex_db_two_paths :: database where
  "ex_db_two_paths =
     ex_db\<lparr>blob_storage := [ex_placement 3 ''p'', ex_placement 3 ''q'', ex_placement 2 ''p'']\<rparr>"

definition ex_db_two_paths_swapped :: database where
  "ex_db_two_paths_swapped =
     ex_db\<lparr>blob_storage := [ex_placement 3 ''q'', ex_placement 3 ''p'', ex_placement 2 ''p'']\<rparr>"

definition cat_path :: "cat_row \<Rightarrow> string" where
  "cat_path row = (case row of (e, b, bs, s) \<Rightarrow> bs_path bs)"

section \<open>Predicates of the properties\<close>

text \<open>
  What \<open>CatReadCloser\<close> needs of a row of the join to get as far as the backend: a
  compression algorithm that is not NULL and is registered, a storage id of 32 bytes and
  a storage kind the registry knows. The result is the storage and the algorithm.
\<close>

definition row_resolves :: "env \<Rightarrow> cat_row \<Rightarrow> (Storage \<times> Compression) option" where
  "row_resolves env row =
     (case row of (e, b, bs, s) \<Rightarrow>
        (case e_compression_alg e of
           None \<Rightarrow> None
         | Some alg \<Rightarrow>
            (case ByAlgName env alg of
               None \<Rightarrow> None
             | Some c \<Rightarrow>
                if length (s_storage_id s) \<noteq> 32 then None
                else
                  (case StorageDataToStorage env
                          \<lparr>StorageID = s_storage_id s, Kind = s_type s,
                           Identifier = s_identifier s, RootPath = s_root_path s\<rparr> of
                     None \<Rightarrow> None
                   | Some st \<Rightarrow> Some (st, c)))))"

text \<open>
  The backend returns the recorded bytes of content \<open>x\<close> for a row: the section of the
  object at the offset and of the size of the entry is the encryption, under the
  \<open>encryption_key\<close> of the blob and at that offset, of the compressed \<open>x\<close>, which the
  algorithm decompresses to \<open>x\<close>.
\<close>

definition returns_recorded :: "env \<Rightarrow> cat_row \<Rightarrow> Storage \<Rightarrow> Compression \<Rightarrow> bytes \<Rightarrow> bool" where
  "returns_recorded env row st c x =
     (case row of (e, b, bs, s) \<Rightarrow>
        DownloadSection st (bs_path bs) (e_offset e) (e_final_size e)
          = Inr (EncryptBlobEntry (keystream env) (Compress c x) (e_offset e)
                   (b_encryption_key b))
        \<and> map_option fst (Decompress c (Compress c x)) = Some x)"

definition placement_holds :: "env \<Rightarrow> cat_row \<Rightarrow> bytes \<Rightarrow> bool" where
  "placement_holds env row x =
     (case row_resolves env row of
        None \<Rightarrow> False
      | Some (st, c) \<Rightarrow> returns_recorded env row st c x)"

text \<open>
  Two states of the store with the same rows in every table the query reads, whatever
  the order in which they are listed.
\<close>

definition same_tables :: "database \<Rightarrow> database \<Rightarrow> bool" where
  "same_tables db db' =
     (set (blob_entries db') = set (blob_entries db)
      \<and> set (blobs db') = set (blobs db)
      \<and> set (blob_storage db') = set (blob_storage db)
      \<and> set (storage db') = set (storage db))"

text \<open>
  The keys of the schema: \<open>hash\<close> is the primary key of \<open>blob_entries\<close>, \<open>blob_id\<close> that
  of \<open>blobs\<close>, and \<open>readable_label\<close> is unique in \<open>storage\<close>.
\<close>

definition keys_unique :: "database \<Rightarrow> bool" where
  "keys_unique db =
     (distinct (map e_hash (blob_entries db))
      \<and> distinct (map b_blob_id (blobs db))
      \<and> distinct (map s_readable_label (storage db)))"

text \<open>No storage holds two placements of one blob; the schema does not require it.\<close>

definition one_placement_per_storage :: "database \<Rightarrow> bool" where
  "one_placement_per_storage db =
     distinct (map (\<lambda>bs. (bs_blob_id bs, bs_storage_id bs)) (blob_storage db))"

text \<open>
  Entries that cover contiguous ranges without overlap, the first starting at \<open>pos\<close>.
\<close>

fun contiguous :: "int \<Rightarrow> blob_entries_row list \<Rightarrow> bool" where
  "contiguous pos [] = True"
| "contiguous pos (e # es) =
     (e_offset e = pos \<and> 0 \<le> e_final_size e \<and> contiguous (pos + e_final_size e) es)"

text \<open>
  Modelled from the spec: the error kinds are not in the code, which panics with a
  message. The specification calls \<open>Corrupt\<close> a hash mismatch, nonzero padding, a size
  mismatch and a misaligned entry.
\<close>

fun Corrupt :: "panic \<Rightarrow> bool" where
  "Corrupt Misaligned = True"
| "Corrupt EntryWrongSize = True"
| "Corrupt WrongData = True"
| "Corrupt PaddingNotZero = True"
| "Corrupt BlobSizeMismatch = True"
| "Corrupt BlobHashMismatch = True"
| "Corrupt p = False"

text \<open>
  A well-formed line of the input of \<open>paranoia blob\<close>, in the words of the
  specification: exactly 64 hexadecimal characters.
\<close>

definition hex_digit :: "char \<Rightarrow> bool" where
  "hex_digit c = (c \<in> set ''0123456789abcdefABCDEF'')"

definition well_formed_line :: "string \<Rightarrow> bool" where
  "well_formed_line l = (length l = 64 \<and> list_all hex_digit l)"

text \<open>The blob ids named by the lines that are not blank.\<close>

definition line_ids :: "string list \<Rightarrow> bytes list" where
  "line_ids ls = List.map_filter DecodeString (filter (\<lambda>l. l \<noteq> []) ls)"

section \<open>Theorems\<close>

lemma sint_range_end:
  fixes offset len :: int64
  assumes "- (2 ^ 63) \<le> sint offset + sint len - 1" and "sint offset + sint len - 1 < 2 ^ 63"
  shows "sint (offset + len - 1) = sint offset + sint len - 1"
proof -
  let ?s = "sint offset + sint len"
  have one: "signed_take_bit 63 (1 :: int) = 1"
    by (simp add: signed_take_bit_int_eq_self)
  have "sint (offset + len - 1) = signed_take_bit 63 (sint (offset + len) - sint (1 :: int64))"
    by (simp add: sint_word_ariths)
  also have "\<dots> = signed_take_bit 63 (signed_take_bit 63 ?s - signed_take_bit 63 1)"
    by (simp add: sint_word_ariths one)
  also have "\<dots> = signed_take_bit 63 (?s - 1)"
    by (rule signed_take_bit_diff)
  also have "\<dots> = sint offset + sint len - 1"
    using assms by (simp add: signed_take_bit_int_eq_self)
  finally show ?thesis .
qed

text \<open>
  C9 (amended). Whenever the inclusive end \<open>offset + length - 1\<close> is representable as an
  int64, the header produced by \<open>FormatHTTPRange\<close> is the string
  \<open>bytes=<offset>-<offset+length-1>\<close> of the specification.
\<close>

theorem FormatHTTPRange_inclusive:
  assumes "- (2 ^ 63) \<le> sint offset + sint len - 1" and "sint offset + sint len - 1 < 2 ^ 63"
  shows "FormatHTTPRange offset len = http_range_spec (sint offset) (sint len)"
  using sint_range_end [OF assms]
  by (simp add: FormatHTTPRange_def http_range_spec_def FormatInt_def)

theorem FormatHTTPRange_inclusive_witness:
  "FormatHTTPRange 100 50 = http_range_spec (sint (100 :: int64)) (sint (50 :: int64))
   \<and> FormatHTTPRange 100 50 = ''bytes=100-149''"
proof -
  have a: "- (2 ^ 63) \<le> sint (100 :: int64) + sint (50 :: int64) - 1" by simp
  have b: "sint (100 :: int64) + sint (50 :: int64) - 1 < 2 ^ 63" by simp
  have c: "http_range_spec (sint (100 :: int64)) (sint (50 :: int64)) = ''bytes=100-149''"
    by code_simp
  show ?thesis using FormatHTTPRange_inclusive [OF a b] c by simp
qed

lemma sint_max64: "sint (9223372036854775807 :: int64) = 9223372036854775807"
  by simp

lemma sint_min64: "sint (9223372036854775808 :: int64) = - 9223372036854775808"
  by simp

lemma dec_nat_max64: "dec_nat 9223372036854775807 = ''9223372036854775807''"
  by (simp add: dec_nat.simps digit_chars_def)

lemma dec_nat_max64_succ: "dec_nat 9223372036854775808 = ''9223372036854775808''"
  by (simp add: dec_nat.simps digit_chars_def)

text \<open>
  C9 as stated fails when the end overflows: for offset \<open>2^63 - 1\<close> and length 2 the
  int64 sum wraps to \<open>- 2^63\<close>, so the header ends in a negative number instead of
  \<open>9223372036854775808\<close>.
\<close>

theorem FormatHTTPRange_overflow_counterexample:
  "FormatHTTPRange 9223372036854775807 2 = ''bytes=9223372036854775807--9223372036854775808''
   \<and> http_range_spec (sint (9223372036854775807 :: int64)) (sint (2 :: int64))
       = ''bytes=9223372036854775807-9223372036854775808''
   \<and> FormatHTTPRange 9223372036854775807 2
       \<noteq> http_range_spec (sint (9223372036854775807 :: int64)) (sint (2 :: int64))"
  by (simp add: FormatHTTPRange_def FormatInt_def http_range_spec_def dec_int_def
      sint_max64 sint_min64 dec_nat_max64 dec_nat_max64_succ)

subsection \<open>Round trips of the stream wrappers\<close>

lemma lookup_Some_less: "lookup h (Some a) = Some v \<Longrightarrow> a < length h"
  by (simp add: lookup_def split: if_splits)

lemma rc_roundtrip_other:
  assumes "other_ReadCloser h rc"
  shows "rc_roundtrip h rc = (rc, h @ [fakeReader rc False])"
proof (cases rc)
  case None
  then show ?thesis
    by (simp add: rc_roundtrip_def ReadCloserToReader_def ReaderToReadCloser_def new_def
        lookup_def)
next
  case (Some a)
  with assms obtain v where v: "lookup h (Some a) = Some v"
    and c: "is_ReadCloser v" and f: "\<not> is_fakeReadCloser v"
    by (auto simp: other_ReadCloser_def split: option.splits)
  from c f have r: "ReadCloserToReader h (Some a) = (Some (length h), h @ [fakeReader (Some a) False])"
    using v by (cases v) (simp_all add: ReadCloserToReader_def new_def)
  have "ReaderToReadCloser (h @ [fakeReader (Some a) False]) (Some (length h))
          = (Some a, h @ [fakeReader (Some a) False])"
    by (simp add: ReaderToReadCloser_def lookup_def)
  with r Some show ?thesis by (simp add: rc_roundtrip_def)
qed

lemma ReaderToReadCloser_plain:
  assumes "plain_Reader h r"
  shows "ReaderToReadCloser h r = (Some (length h), h @ [fakeReadCloser r])"
proof (cases r)
  case None
  then show ?thesis by (simp add: ReaderToReadCloser_def new_def lookup_def)
next
  case (Some a)
  with assms obtain v where v: "lookup h (Some a) = Some v"
    and c: "\<not> is_ReadCloser v" and u: "\<not> is_unread_fakeReader v"
    by (auto simp: plain_Reader_def split: option.splits)
  show ?thesis
  proof (cases v)
    case (Stream x)
    with v c Some show ?thesis by (simp add: ReaderToReadCloser_def new_def)
  next
    case (fakeReader x p)
    with u have "p" by simp
    with fakeReader v Some show ?thesis by (simp add: ReaderToReadCloser_def new_def)
  next
    case (fakeReadCloser x)
    with c show ?thesis by simp
  qed
qed

lemma rc_roundtrip_fake:
  assumes "lookup h (Some a) = Some (fakeReadCloser r)" and "plain_Reader h r"
  shows "rc_roundtrip h (Some a) = (Some (length h), h @ [fakeReadCloser r])"
  using assms(1) ReaderToReadCloser_plain [OF assms(2)]
  by (simp add: rc_roundtrip_def ReadCloserToReader_def)

lemma r_roundtrip_plain:
  assumes "plain_Reader h r"
  shows "r_roundtrip h r = (r, h @ [fakeReadCloser r])"
proof -
  have "ReadCloserToReader (h @ [fakeReadCloser r]) (Some (length h)) = (r, h @ [fakeReadCloser r])"
    by (simp add: ReadCloserToReader_def lookup_def)
  with ReaderToReadCloser_plain [OF assms] show ?thesis by (simp add: r_roundtrip_def)
qed

lemma r_roundtrip_unread:
  assumes "lookup h (Some a) = Some (fakeReader rc False)" and "other_ReadCloser h rc"
  shows "r_roundtrip h (Some a) = (Some (length h), h @ [fakeReader rc False])"
proof -
  from assms(1) have 1: "ReaderToReadCloser h (Some a) = (rc, h)"
    by (simp add: ReaderToReadCloser_def)
  have 2: "ReadCloserToReader h rc = (Some (length h), h @ [fakeReader rc False])"
  proof (cases rc)
    case None
    then show ?thesis by (simp add: ReadCloserToReader_def new_def lookup_def)
  next
    case (Some b)
    with assms(2) obtain v where v: "lookup h (Some b) = Some v" and f: "\<not> is_fakeReadCloser v"
      by (auto simp: other_ReadCloser_def split: option.splits)
    from f v Some show ?thesis by (cases v) (simp_all add: ReadCloserToReader_def new_def)
  qed
  from 1 2 show ?thesis by (simp add: r_roundtrip_def)
qed

text \<open>
  After a read through the wrapper the first round trip no longer gives back its
  argument: it wraps the wrapper.
\<close>

lemma rc_read_roundtrip_fresh:
  assumes "lookup h (Some a) = Some v" and "is_ReadCloser v" and "\<not> is_fakeReadCloser v"
  shows "rc_read_roundtrip h (Some a)
           = (Some (Suc (length h)),
              h @ [fakeReader (Some a) True, fakeReadCloser (Some (length h))])"
proof -
  from assms have r: "ReadCloserToReader h (Some a) = (Some (length h), h @ [fakeReader (Some a) False])"
    by (cases v) (simp_all add: ReadCloserToReader_def new_def)
  have f: "fakeReader_Read (h @ [fakeReader (Some a) False]) (length h)
             = h @ [fakeReader (Some a) True]"
    by (simp add: fakeReader_Read_def lookup_def)
  have "ReaderToReadCloser (h @ [fakeReader (Some a) True]) (Some (length h))
          = (Some (Suc (length h)), h @ [fakeReader (Some a) True, fakeReadCloser (Some (length h))])"
    by (simp add: ReaderToReadCloser_def lookup_def new_def)
  with r f show ?thesis by (simp add: rc_read_roundtrip_def)
qed

text \<open>
  C10 (amended). For a ReadCloser \<open>rc\<close> that is not itself a \<open>fakeReadCloser\<close> (nil, or an
  object of another type), \<open>ReaderToReadCloser (ReadCloserToReader rc)\<close> is \<open>rc\<close> itself
  when nothing was read through the wrapper in between; the one object allocated is the
  wrapper. For a \<open>fakeReadCloser\<close> at \<open>a\<close> around a plain Reader \<open>r\<close> the result is not
  \<open>a\<close>: it is a newly allocated \<open>fakeReadCloser\<close> around the same \<open>r\<close>. For a plain Reader
  \<open>r\<close> (nil, or an object without \<open>Close\<close> that is not an unread \<open>fakeReader\<close>),
  \<open>ReadCloserToReader (ReaderToReadCloser r)\<close> is \<open>r\<close> itself. For an unread
  \<open>fakeReader\<close> at \<open>a\<close> around \<open>rc\<close> the result is not \<open>a\<close>: it is a newly allocated unread
  \<open>fakeReader\<close> around the same \<open>rc\<close>. So the wrapping never changes which stream is
  read.
\<close>

theorem wrapper_roundtrip:
  "(other_ReadCloser h rc \<longrightarrow> rc_roundtrip h rc = (rc, h @ [fakeReader rc False]))
 \<and> (lookup h (Some a) = Some (fakeReadCloser r) \<and> plain_Reader h r \<longrightarrow>
      rc_roundtrip h (Some a) = (Some (length h), h @ [fakeReadCloser r])
      \<and> fst (rc_roundtrip h (Some a)) \<noteq> Some a)
 \<and> (plain_Reader h r \<longrightarrow> r_roundtrip h r = (r, h @ [fakeReadCloser r]))
 \<and> (lookup h (Some a) = Some (fakeReader rc False) \<and> other_ReadCloser h rc \<longrightarrow>
      r_roundtrip h (Some a) = (Some (length h), h @ [fakeReader rc False])
      \<and> fst (r_roundtrip h (Some a)) \<noteq> Some a)"
proof -
  have 1: "other_ReadCloser h rc \<longrightarrow> rc_roundtrip h rc = (rc, h @ [fakeReader rc False])"
    using rc_roundtrip_other by blast
  have 2: "lookup h (Some a) = Some (fakeReadCloser r) \<and> plain_Reader h r \<longrightarrow>
      rc_roundtrip h (Some a) = (Some (length h), h @ [fakeReadCloser r])
      \<and> fst (rc_roundtrip h (Some a)) \<noteq> Some a"
  proof (intro impI, elim conjE)
    assume l: "lookup h (Some a) = Some (fakeReadCloser r)" and p: "plain_Reader h r"
    from l have "a < length h" by (rule lookup_Some_less)
    with rc_roundtrip_fake [OF l p]
    show "rc_roundtrip h (Some a) = (Some (length h), h @ [fakeReadCloser r])
      \<and> fst (rc_roundtrip h (Some a)) \<noteq> Some a" by simp
  qed
  have 3: "plain_Reader h r \<longrightarrow> r_roundtrip h r = (r, h @ [fakeReadCloser r])"
    using r_roundtrip_plain by blast
  have 4: "lookup h (Some a) = Some (fakeReader rc False) \<and> other_ReadCloser h rc \<longrightarrow>
      r_roundtrip h (Some a) = (Some (length h), h @ [fakeReader rc False])
      \<and> fst (r_roundtrip h (Some a)) \<noteq> Some a"
  proof (intro impI, elim conjE)
    assume l: "lookup h (Some a) = Some (fakeReader rc False)" and p: "other_ReadCloser h rc"
    from l have "a < length h" by (rule lookup_Some_less)
    with r_roundtrip_unread [OF l p]
    show "r_roundtrip h (Some a) = (Some (length h), h @ [fakeReader rc False])
      \<and> fst (r_roundtrip h (Some a)) \<noteq> Some a" by simp
  qed
  show ?thesis by (rule conjI [OF 1 conjI [OF 2 conjI [OF 3 4]]])
qed

text \<open>
  Witness: in the store below object 0 is a ReadCloser of another type, object 1 a
  Reader without \<open>Close\<close>, object 2 the wrapper that \<open>ReaderToReadCloser\<close> builds around
  object 1, object 3 the wrapper that \<open>ReadCloserToReader\<close> builds around object 0. The
  round trips of objects 0 and 1 and of nil give back their argument; those of the two
  wrappers allocate object 4.
\<close>

theorem wrapper_roundtrip_witness:
  "rc_roundtrip [Stream True, Stream False, fakeReadCloser (Some 1), fakeReader (Some 0) False] (Some 0)
     = (Some 0, [Stream True, Stream False, fakeReadCloser (Some 1), fakeReader (Some 0) False,
                 fakeReader (Some 0) False])
 \<and> rc_roundtrip [] None = (None, [fakeReader None False])
 \<and> rc_roundtrip [Stream True, Stream False, fakeReadCloser (Some 1), fakeReader (Some 0) False] (Some 2)
     = (Some 4, [Stream True, Stream False, fakeReadCloser (Some 1), fakeReader (Some 0) False,
                 fakeReadCloser (Some 1)])
 \<and> r_roundtrip [Stream True, Stream False, fakeReadCloser (Some 1), fakeReader (Some 0) False] (Some 1)
     = (Some 1, [Stream True, Stream False, fakeReadCloser (Some 1), fakeReader (Some 0) False,
                 fakeReadCloser (Some 1)])
 \<and> r_roundtrip [] None = (None, [fakeReadCloser None])
 \<and> r_roundtrip [Stream True, Stream False, fakeReadCloser (Some 1), fakeReader (Some 0) False] (Some 3)
     = (Some 4, [Stream True, Stream False, fakeReadCloser (Some 1), fakeReader (Some 0) False,
                 fakeReader (Some 0) False])"
proof -
  let ?h = "[Stream True, Stream False, fakeReadCloser (Some 1), fakeReader (Some 0) False]"
  have l2: "lookup ?h (Some 2) = Some (fakeReadCloser (Some 1))" by (simp add: lookup_def)
  have l3: "lookup ?h (Some 3) = Some (fakeReader (Some 0) False)" by (simp add: lookup_def)
  have o0: "other_ReadCloser ?h (Some 0)" by (simp add: other_ReadCloser_def lookup_def)
  have p1: "plain_Reader ?h (Some 1)" by (simp add: plain_Reader_def lookup_def)
  have on: "other_ReadCloser [] None" by (simp add: other_ReadCloser_def)
  have pn: "plain_Reader [] None" by (simp add: plain_Reader_def)
  from wrapper_roundtrip [of ?h "Some 0"] o0
  have a: "rc_roundtrip ?h (Some 0) = (Some 0, ?h @ [fakeReader (Some 0) False])" by blast
  from wrapper_roundtrip [of "[]" None] on
  have b: "rc_roundtrip [] None = (None, [] @ [fakeReader None False])" by blast
  from wrapper_roundtrip [of ?h _ 2 "Some 1"] l2 p1
  have c: "rc_roundtrip ?h (Some 2) = (Some (length ?h), ?h @ [fakeReadCloser (Some 1)])" by blast
  from wrapper_roundtrip [of ?h _ _ "Some 1"] p1
  have d: "r_roundtrip ?h (Some 1) = (Some 1, ?h @ [fakeReadCloser (Some 1)])" by blast
  from wrapper_roundtrip [of "[]" _ _ None] pn
  have e: "r_roundtrip [] None = (None, [] @ [fakeReadCloser None])" by blast
  from wrapper_roundtrip [of ?h "Some 0" 3] l3 o0
  have f: "r_roundtrip ?h (Some 3) = (Some (length ?h), ?h @ [fakeReader (Some 0) False])" by blast
  from a b c d e f show ?thesis by simp
qed

text \<open>
  C10 as stated fails for a ReadCloser that is a \<open>fakeReadCloser\<close>: object 1 below is the
  wrapper \<open>ReaderToReadCloser\<close> returned for the plain reader 0. \<open>ReadCloserToReader\<close>
  unwraps it to 0, and \<open>ReaderToReadCloser\<close> then allocates a second wrapper, object 2,
  which is not object 1.
\<close>

theorem wrapper_roundtrip_counterexample:
  "ReaderToReadCloser [Stream False] (Some 0) = (Some 1, [Stream False, fakeReadCloser (Some 0)])
 \<and> rc_roundtrip [Stream False, fakeReadCloser (Some 0)] (Some 1)
      = (Some 2, [Stream False, fakeReadCloser (Some 0), fakeReadCloser (Some 0)])
 \<and> fst (rc_roundtrip [Stream False, fakeReadCloser (Some 0)] (Some 1)) \<noteq> Some 1"
  by (simp add: rc_roundtrip_def ReadCloserToReader_def ReaderToReadCloser_def new_def
      lookup_def)

subsection \<open>Selection of the placement\<close>

lemma sort_key_head_le:
  assumes "sort_key f xs = r # rest" and "x \<in> set xs"
  shows "f r \<le> f x"
proof -
  have "sorted (map f (r # rest))"
    using sorted_sort_key [of f xs] assms(1) by simp
  moreover have "x \<in> set (r # rest)"
    using assms set_sort [of f xs] by simp
  ultimately show ?thesis by auto
qed

lemma cat_join_mem:
  "(e, b, bs, s) \<in> set (cat_join db hash) \<Longrightarrow>
     e \<in> set (blob_entries db) \<and> e_hash e = hash \<and> b \<in> set (blobs db) \<and> b_blob_id b = e_blob_id e
     \<and> bs \<in> set (blob_storage db) \<and> bs_blob_id bs = b_blob_id b
     \<and> s \<in> set (storage db) \<and> s_storage_id s = bs_storage_id bs"
  by (auto simp: cat_join_def)

lemma cat_select_mem:
  assumes "cat_select db hash = Some row"
  shows "row \<in> set (cat_join db hash)"
proof -
  from assms obtain rest where "sort_key cat_label (cat_join db hash) = row # rest"
    by (auto simp: cat_select_def cat_rows_def split: list.splits)
  then have "row \<in> set (sort_key cat_label (cat_join db hash))" by simp
  then show ?thesis by simp
qed

lemma cat_select_least:
  assumes "cat_select db hash = Some row" and "r \<in> set (cat_join db hash)"
  shows "cat_label row \<le> cat_label r"
proof -
  from assms(1) obtain rest where "sort_key cat_label (cat_join db hash) = row # rest"
    by (auto simp: cat_select_def cat_rows_def split: list.splits)
  then show ?thesis using assms(2) by (rule sort_key_head_le)
qed

lemma cat_select_exists:
  assumes "cat_join db hash \<noteq> []"
  shows "\<exists>row. cat_select db hash = Some row"
proof -
  have "length (sort_key cat_label (cat_join db hash)) = length (cat_join db hash)"
    by simp
  with assms have "sort_key cat_label (cat_join db hash) \<noteq> []"
    by (metis length_0_conv)
  then show ?thesis
    by (auto simp: cat_select_def cat_rows_def split: list.splits)
qed

lemma cat_select_None:
  assumes "cat_join db hash = []"
  shows "cat_select db hash = None"
  using assms by (simp add: cat_select_def cat_rows_def)

lemma cat_join_absent:
  assumes "\<forall>e \<in> set (blob_entries db). e_hash e \<noteq> hash"
  shows "cat_join db hash = []"
proof (cases "cat_join db hash")
  case Nil
  then show ?thesis .
next
  case (Cons row rest)
  obtain e b bs s where "row = (e, b, bs, s)" by (cases row) auto
  with Cons have "(e, b, bs, s) \<in> set (cat_join db hash)" by simp
  from cat_join_mem [OF this] assms show ?thesis by blast
qed

lemma same_label_same_storage:
  assumes "distinct (map s_readable_label (storage db))"
    and "(e, b, bs, s) \<in> set (cat_join db hash)" and "(e', b', bs', s') \<in> set (cat_join db hash)"
    and "s_readable_label s' = s_readable_label s"
  shows "s' = s"
proof -
  have "inj_on s_readable_label (set (storage db))"
    using assms(1) by (simp add: distinct_map)
  moreover have "s \<in> set (storage db)" "s' \<in> set (storage db)"
    using assms(2,3) cat_join_mem by blast+
  ultimately show ?thesis using assms(4) by (auto dest: inj_onD)
qed

lemma cat_join_set:
  "set (cat_join db hash) =
     {(e, b, bs, s).
        e \<in> set (blob_entries db) \<and> e_hash e = hash \<and> b \<in> set (blobs db)
        \<and> b_blob_id b = e_blob_id e \<and> bs \<in> set (blob_storage db)
        \<and> bs_blob_id bs = b_blob_id b \<and> s \<in> set (storage db)
        \<and> s_storage_id s = bs_storage_id bs}"
  by (auto simp: cat_join_def)

lemma same_tables_join:
  assumes "same_tables db db'"
  shows "set (cat_join db' hash) = set (cat_join db hash)"
  using assms by (simp add: cat_join_set same_tables_def)

lemma same_label_same_row:
  assumes keys: "keys_unique db" and one: "one_placement_per_storage db"
    and r: "(e, b, bs, s) \<in> set (cat_join db hash)"
    and r': "(e', b', bs', s') \<in> set (cat_join db hash)"
    and l: "s_readable_label s' = s_readable_label s"
  shows "(e', b', bs', s') = (e, b, bs, s)"
proof -
  note m = cat_join_mem [OF r] and m' = cat_join_mem [OF r']
  have ie: "inj_on e_hash (set (blob_entries db))"
    and ib: "inj_on b_blob_id (set (blobs db))"
    and il: "inj_on s_readable_label (set (storage db))"
    using keys by (simp_all add: keys_unique_def distinct_map)
  have ip: "inj_on (\<lambda>bs. (bs_blob_id bs, bs_storage_id bs)) (set (blob_storage db))"
    using one by (simp add: one_placement_per_storage_def distinct_map)
  have "e_hash e' = e_hash e" using m m' by simp
  then have e: "e' = e" using m m' by (intro inj_onD [OF ie]) simp_all
  have "b_blob_id b' = b_blob_id b" using m m' e by simp
  then have b: "b' = b" using m m' by (intro inj_onD [OF ib]) simp_all
  have s: "s' = s" using l m m' by (intro inj_onD [OF il]) simp_all
  have "(bs_blob_id bs', bs_storage_id bs') = (bs_blob_id bs, bs_storage_id bs)"
    using m m' b s by simp
  then have "bs' = bs" using m m' by (intro inj_onD [OF ip]) simp_all
  with e b s show ?thesis by simp
qed

lemma cat_select_same_tables:
  assumes t: "same_tables db db'" and keys: "keys_unique db"
    and one: "one_placement_per_storage db"
    and sel: "cat_select db hash = Some row"
  shows "cat_select db' hash = Some row"
proof -
  have js: "set (cat_join db' hash) = set (cat_join db hash)"
    using t by (rule same_tables_join)
  from cat_select_mem [OF sel] js have "cat_join db' hash \<noteq> []" by auto
  from cat_select_exists [OF this] obtain row' where sel': "cat_select db' hash = Some row'" ..
  have r: "row \<in> set (cat_join db hash)" using sel by (rule cat_select_mem)
  have r': "row' \<in> set (cat_join db hash)" using cat_select_mem [OF sel'] js by simp
  have "cat_label row \<le> cat_label row'" using sel r' by (rule cat_select_least)
  moreover have "cat_label row' \<le> cat_label row"
    using cat_select_least [OF sel', of row] r js by simp
  ultimately have l: "cat_label row' = cat_label row" by simp
  obtain e b bs s where row: "row = (e, b, bs, s)" by (cases row) auto
  obtain e' b' bs' s' where row': "row' = (e', b', bs', s')" by (cases row') auto
  from l row row' have "s_readable_label s' = s_readable_label s" by (simp add: cat_label_def)
  with same_label_same_row [OF keys one] r r' row row' have "row' = row" by blast
  with sel' show ?thesis by simp
qed

text \<open>
  C4 (amended). For every hash that has a placement, \<open>CatReadCloser\<close> opens a row of the
  join whose storage label is the least among all the rows for that hash, in the
  lexicographic order of the bytes; with the labels of the storage table distinct, all
  rows with that label are on the same storage. When moreover no storage holds two
  placements of one blob, the row is determined by the hash and the rows of the tables:
  the same row is selected in whatever order the rows are listed.
\<close>

theorem cat_selects_smallest_label:
  assumes "cat_join db hash \<noteq> []"
  shows "\<exists>e b bs s.
           cat_select db hash = Some (e, b, bs, s)
         \<and> (e, b, bs, s) \<in> set (cat_join db hash)
         \<and> (\<forall>r \<in> set (cat_join db hash). s_readable_label s \<le> cat_label r)
         \<and> (distinct (map s_readable_label (storage db)) \<longrightarrow>
              (\<forall>(e', b', bs', s') \<in> set (cat_join db hash).
                 s_readable_label s' = s_readable_label s \<longrightarrow> s' = s))
         \<and> CatReadCloser env db hash = cat_open env (e, b, bs, s)
         \<and> (same_tables db db' \<and> keys_unique db \<and> one_placement_per_storage db \<longrightarrow>
              cat_select db' hash = Some (e, b, bs, s))"
proof -
  from cat_select_exists [OF assms] obtain row where sel: "cat_select db hash = Some row" ..
  obtain e b bs s where row: "row = (e, b, bs, s)" by (cases row) auto
  have mem: "(e, b, bs, s) \<in> set (cat_join db hash)"
    using cat_select_mem [OF sel] row by simp
  have least: "\<forall>r \<in> set (cat_join db hash). s_readable_label s \<le> cat_label r"
    using cat_select_least [OF sel] row by (simp add: cat_label_def)
  have uniq: "distinct (map s_readable_label (storage db)) \<longrightarrow>
              (\<forall>(e', b', bs', s') \<in> set (cat_join db hash).
                 s_readable_label s' = s_readable_label s \<longrightarrow> s' = s)"
    using same_label_same_storage [OF _ mem] by blast
  have opens: "CatReadCloser env db hash = cat_open env (e, b, bs, s)"
    using sel row by (simp add: CatReadCloser_def)
  have det: "same_tables db db' \<and> keys_unique db \<and> one_placement_per_storage db \<longrightarrow>
              cat_select db' hash = Some (e, b, bs, s)"
    using cat_select_same_tables [of db db' hash row] sel row by blast
  from sel row mem least uniq opens det show ?thesis by blast
qed

text \<open>
  C7 (amended). For every hash that is absent from \<open>blob_entries\<close> or has no placement,
  \<open>CatReadCloser\<close> panics with the error of the query, \<open>sql.ErrNoRows\<close>; the query is
  issued once.
\<close>

theorem cat_not_found_panics:
  assumes "(\<forall>e \<in> set (blob_entries db). e_hash e \<noteq> hash) \<or> cat_join db hash = []"
  shows "CatReadCloser env db hash = Panic ErrNoRows"
proof -
  from assms have "cat_join db hash = []" using cat_join_absent by blast
  then show ?thesis by (simp add: CatReadCloser_def cat_select_None)
qed

subsection \<open>The small installation\<close>

lemma ex_join: "cat_join ex_db (ex_digest ex_content) =
   [(ex_entry, ex_blob, \<lparr>bs_blob_id = ex_blob_id, bs_storage_id = replicate 32 2, bs_path = ''p''\<rparr>, ex_storage_bb),
    (ex_entry, ex_blob, \<lparr>bs_blob_id = ex_blob_id, bs_storage_id = replicate 32 3, bs_path = ''p''\<rparr>, ex_storage_aa)]"
  by (simp add: cat_join_def ex_db_def ex_entry_def ex_empty_entry_def ex_blob_def ex_storage_bb_def ex_storage_aa_def ex_digest_def ex_content_def ex_blob_id_def)

lemma ex_select: "cat_select ex_db (ex_digest ex_content) =
   Some (ex_entry, ex_blob, \<lparr>bs_blob_id = ex_blob_id, bs_storage_id = replicate 32 3, bs_path = ''p''\<rparr>, ex_storage_aa)"
  by (simp add: cat_select_def cat_rows_def ex_join cat_label_def ex_storage_bb_def ex_storage_aa_def)

lemma ex_join_reordered: "cat_join ex_db_reordered (ex_digest ex_content) =
   [(ex_entry, ex_blob, \<lparr>bs_blob_id = ex_blob_id, bs_storage_id = replicate 32 3, bs_path = ''p''\<rparr>, ex_storage_aa),
    (ex_entry, ex_blob, \<lparr>bs_blob_id = ex_blob_id, bs_storage_id = replicate 32 2, bs_path = ''p''\<rparr>, ex_storage_bb)]"
  by (simp add: cat_join_def ex_db_reordered_def ex_db_def ex_entry_def ex_empty_entry_def
      ex_blob_def ex_storage_bb_def ex_storage_aa_def ex_digest_def ex_content_def ex_blob_id_def)

lemma ex_same_tables: "same_tables ex_db ex_db_reordered"
  by (auto simp: same_tables_def ex_db_reordered_def)

lemma ex_keys_unique: "keys_unique ex_db"
  by (simp add: keys_unique_def ex_db_def ex_entry_def ex_empty_entry_def ex_digest_def
      ex_content_def ex_storage_bb_def ex_storage_aa_def)

lemma ex_one_placement: "one_placement_per_storage ex_db"
  by (simp add: one_placement_per_storage_def ex_db_def)

theorem cat_selects_smallest_label_witness:
  "cat_join ex_db (ex_digest ex_content) \<noteq> []
 \<and> map_option cat_label (cat_select ex_db (ex_digest ex_content)) = Some ''aa''
 \<and> list_all (\<lambda>r. ''aa'' \<le> cat_label r) (cat_join ex_db (ex_digest ex_content))
 \<and> CatReadCloser ex_env ex_db (ex_digest ex_content)
     = cat_open ex_env (ex_entry, ex_blob,
         \<lparr>bs_blob_id = ex_blob_id, bs_storage_id = replicate 32 3, bs_path = ''p''\<rparr>, ex_storage_aa)
 \<and> same_tables ex_db ex_db_reordered \<and> keys_unique ex_db \<and> one_placement_per_storage ex_db
 \<and> cat_select ex_db_reordered (ex_digest ex_content) = cat_select ex_db (ex_digest ex_content)"
proof -
  have h: "cat_join ex_db (ex_digest ex_content) \<noteq> []" by (simp add: ex_join)
  have l: "s_readable_label ex_storage_aa = ''aa''" by (simp add: ex_storage_aa_def)
  from cat_selects_smallest_label [OF h, of ex_env ex_db_reordered]
    h l ex_same_tables ex_keys_unique ex_one_placement
  show ?thesis
    by (auto simp: ex_select cat_label_def list_all_iff)
qed

text \<open>
  C4 as stated fails where the storage of least label holds two placements of the blob.
  \<open>ORDER BY storage.readable_label\<close> leaves the order of rows of equal label to the
  engine; the order of the list stands for it. The two installations below have the
  same rows, and the same hash resolves to the path \<open>p\<close> in one and \<open>q\<close> in the other.
\<close>

theorem cat_selects_placement_counterexample:
  "same_tables ex_db_two_paths ex_db_two_paths_swapped
 \<and> keys_unique ex_db_two_paths
 \<and> map_option cat_label (cat_select ex_db_two_paths (ex_digest ex_content)) = Some ''aa''
 \<and> map_option cat_path (cat_select ex_db_two_paths (ex_digest ex_content)) = Some ''p''
 \<and> map_option cat_label (cat_select ex_db_two_paths_swapped (ex_digest ex_content)) = Some ''aa''
 \<and> map_option cat_path (cat_select ex_db_two_paths_swapped (ex_digest ex_content)) = Some ''q''"
proof -
  have t: "same_tables ex_db_two_paths ex_db_two_paths_swapped"
    by (auto simp: same_tables_def ex_db_two_paths_def ex_db_two_paths_swapped_def)
  have k: "keys_unique ex_db_two_paths"
    using ex_keys_unique by (simp add: keys_unique_def ex_db_two_paths_def)
  have j1: "cat_join ex_db_two_paths (ex_digest ex_content) =
     [(ex_entry, ex_blob, ex_placement 3 ''p'', ex_storage_aa),
      (ex_entry, ex_blob, ex_placement 3 ''q'', ex_storage_aa),
      (ex_entry, ex_blob, ex_placement 2 ''p'', ex_storage_bb)]"
    by (simp add: cat_join_def ex_db_two_paths_def ex_db_def ex_entry_def ex_empty_entry_def
        ex_blob_def ex_storage_bb_def ex_storage_aa_def ex_digest_def ex_content_def
        ex_blob_id_def ex_placement_def)
  have j2: "cat_join ex_db_two_paths_swapped (ex_digest ex_content) =
     [(ex_entry, ex_blob, ex_placement 3 ''q'', ex_storage_aa),
      (ex_entry, ex_blob, ex_placement 3 ''p'', ex_storage_aa),
      (ex_entry, ex_blob, ex_placement 2 ''p'', ex_storage_bb)]"
    by (simp add: cat_join_def ex_db_two_paths_swapped_def ex_db_def ex_entry_def
        ex_empty_entry_def ex_blob_def ex_storage_bb_def ex_storage_aa_def ex_digest_def
        ex_content_def ex_blob_id_def ex_placement_def)
  have s1: "cat_select ex_db_two_paths (ex_digest ex_content)
              = Some (ex_entry, ex_blob, ex_placement 3 ''p'', ex_storage_aa)"
    by (simp add: cat_select_def cat_rows_def j1 cat_label_def ex_storage_bb_def
        ex_storage_aa_def)
  have s2: "cat_select ex_db_two_paths_swapped (ex_digest ex_content)
              = Some (ex_entry, ex_blob, ex_placement 3 ''q'', ex_storage_aa)"
    by (simp add: cat_select_def cat_rows_def j2 cat_label_def ex_storage_bb_def
        ex_storage_aa_def)
  have p: "cat_path (ex_entry, ex_blob, ex_placement 3 ''p'', ex_storage_aa) = ''p''"
    "cat_path (ex_entry, ex_blob, ex_placement 3 ''q'', ex_storage_aa) = ''q''"
    "cat_label (ex_entry, ex_blob, ex_placement 3 ''p'', ex_storage_aa) = ''aa''"
    "cat_label (ex_entry, ex_blob, ex_placement 3 ''q'', ex_storage_aa) = ''aa''"
    by (simp_all add: cat_path_def cat_label_def ex_placement_def ex_storage_aa_def)
  from t k s1 s2 p show ?thesis by simp
qed

theorem cat_not_found_panics_witness:
  "list_all (\<lambda>e. e_hash e \<noteq> []) (blob_entries ex_db)
 \<and> CatReadCloser ex_env ex_db [] = Panic ErrNoRows"
proof -
  have h: "\<forall>e \<in> set (blob_entries ex_db). e_hash e \<noteq> []"
    by (simp add: ex_db_def ex_entry_def ex_empty_entry_def ex_digest_def)
  then have "(\<forall>e \<in> set (blob_entries ex_db). e_hash e \<noteq> []) \<or> cat_join ex_db [] = []" ..
  from cat_not_found_panics [OF this, of ex_env] h show ?thesis by (simp add: list_all_iff)
qed

text \<open>
  C7 as stated fails: where no row matches, \<open>CatReadCloser\<close> does not return an error
  to its caller, it panics. In the installation without entries:
\<close>

theorem cat_not_found_counterexample:
  "cat_join ex_db_empty (ex_digest ex_content) = []
 \<and> CatReadCloser ex_env ex_db_empty (ex_digest ex_content) = Panic ErrNoRows
 \<and> \<not> is_Return (CatReadCloser ex_env ex_db_empty (ex_digest ex_content))"
  by (simp add: CatReadCloser_def cat_select_def cat_rows_def cat_join_def ex_db_empty_def)

subsection \<open>Retrieval of the recorded bytes\<close>

lemma crypt_bytes_length: "length (crypt_bytes ks xs off k) = length xs"
  by (simp add: crypt_bytes_def)

lemma crypt_bytes_nth:
  "i < length xs \<Longrightarrow> crypt_bytes ks xs off k ! i = xs ! i XOR ks k (off + int i)"
  by (simp add: crypt_bytes_def nth_enumerate_eq)

lemma crypt_bytes_involution: "crypt_bytes ks (crypt_bytes ks xs off k) off k = xs"
proof (rule nth_equalityI)
  show "length (crypt_bytes ks (crypt_bytes ks xs off k) off k) = length xs"
    by (simp add: crypt_bytes_length)
next
  fix i assume "i < length (crypt_bytes ks (crypt_bytes ks xs off k) off k)"
  then have i: "i < length xs" by (simp add: crypt_bytes_length)
  then show "crypt_bytes ks (crypt_bytes ks xs off k) off k ! i = xs ! i"
    by (simp add: crypt_bytes_nth crypt_bytes_length xor.assoc)
qed

lemma cat_open_holds:
  assumes "placement_holds env row x"
  shows "cat_open env row = Return (Inr x)"
proof -
  obtain e b bs s where row: "row = (e, b, bs, s)" by (cases row) auto
  from assms obtain st c where res: "row_resolves env row = Some (st, c)"
    and rec: "returns_recorded env row st c x"
    by (auto simp: placement_holds_def split: option.splits)
  from res row obtain alg where
    alg: "e_compression_alg e = Some alg" and c: "ByAlgName env alg = Some c"
    and len: "length (s_storage_id s) = 32"
    and st: "StorageDataToStorage env
               \<lparr>StorageID = s_storage_id s, Kind = s_type s,
                Identifier = s_identifier s, RootPath = s_root_path s\<rparr> = Some st"
    by (auto simp: row_resolves_def split: option.splits if_splits)
  from rec row have
    sect: "DownloadSection st (bs_path bs) (e_offset e) (e_final_size e)
                 = Inr (EncryptBlobEntry (keystream env) (Compress c x) (e_offset e)
                          (b_encryption_key b))"
    and dec: "map_option fst (Decompress c (Compress c x)) = Some x"
    by (simp_all add: returns_recorded_def)
  from dec obtain used where dec': "Decompress c (Compress c x) = Some (x, used)"
    by (cases "Decompress c (Compress c x)") auto
  have "cat_decrypted env row st = Inr (Compress c x)"
    by (simp add: cat_decrypted_def row sect DecryptBlobEntry_def EncryptBlobEntry_def
        crypt_bytes_involution)
  then have "Decompress_stream c (cat_decrypted env row st) = Inr x"
    by (simp add: Decompress_stream_def dec')
  then show ?thesis
    using alg c len st by (simp add: cat_open_def row SliceToArr_def)
qed

text \<open>
  C1 (amended). Let \<open>H\<close> be a hash with a placement, and let every row of the join for
  \<open>H\<close> resolve (a compression algorithm that is not NULL and is registered, a storage id
  of 32 bytes, a known storage kind) and its backend return the recorded bytes of \<open>x\<close>,
  the encryption under the \<open>encryption_key\<close> of the blob of the compressed \<open>x\<close>, where \<open>x\<close>
  is the content \<open>hashes\<close> records for \<open>H\<close>: its digest is \<open>H\<close> and its length the recorded
  size. Then the stream returned by \<open>CatReadCloser\<close> delivers exactly \<open>x\<close>, so bytes of
  the recorded size and of digest \<open>H\<close>. No digest is computed on this path.
\<close>

theorem cat_returns_content:
  assumes "cat_join db H \<noteq> []"
    and "\<forall>row \<in> set (cat_join db H). placement_holds env row x"
    and "sha256 env x = H"
    and "\<forall>h \<in> set (hashes db). h_hash h = H \<longrightarrow> h_size h = int (length x)"
  shows "CatReadCloser env db H = Return (Inr x)
       \<and> (\<exists>out. CatReadCloser env db H = Return (Inr out)
             \<and> sha256 env out = H
             \<and> (\<forall>h \<in> set (hashes db). h_hash h = H \<longrightarrow> int (length out) = h_size h))"
proof -
  from cat_select_exists [OF assms(1)] obtain row where sel: "cat_select db H = Some row" ..
  from cat_select_mem [OF sel] assms(2) have "placement_holds env row x" by blast
  then have "cat_open env row = Return (Inr x)" by (rule cat_open_holds)
  with sel have "CatReadCloser env db H = Return (Inr x)" by (simp add: CatReadCloser_def)
  with assms(3,4) show ?thesis by auto
qed

lemma ex_section:
  "DownloadSection (ex_storage sid) ''p'' 0 5 = Inr (EncryptBlobEntry ex_keystream ex_content 0 ex_key)"
  by (simp add: DownloadSection_def ex_storage_def ex_object_def EncryptBlobEntry_def
      crypt_bytes_length ex_content_def)

lemma ex_holds:
  "\<forall>row \<in> set (cat_join ex_db (ex_digest ex_content)). placement_holds ex_env row ex_content"
  by (simp add: ex_join placement_holds_def row_resolves_def returns_recorded_def ex_env_def
      ex_entry_def ex_blob_def ex_storage_bb_def ex_storage_aa_def ex_no_compression_def
      ex_section)

theorem cat_returns_content_witness:
  "cat_join ex_db (ex_digest ex_content) \<noteq> []
 \<and> list_all (\<lambda>row. placement_holds ex_env row ex_content) (cat_join ex_db (ex_digest ex_content))
 \<and> CatReadCloser ex_env ex_db (ex_digest ex_content) = Return (Inr ex_content)
 \<and> (\<exists>out. CatReadCloser ex_env ex_db (ex_digest ex_content) = Return (Inr out)
          \<and> sha256 ex_env out = ex_digest ex_content
          \<and> (\<forall>h \<in> set (hashes ex_db). h_hash h = ex_digest ex_content \<longrightarrow> int (length out) = h_size h))"
proof -
  have a: "cat_join ex_db (ex_digest ex_content) \<noteq> []" by (simp add: ex_join)
  have c: "sha256 ex_env ex_content = ex_digest ex_content" by (simp add: ex_env_def)
  have d: "\<forall>h \<in> set (hashes ex_db). h_hash h = ex_digest ex_content \<longrightarrow> h_size h = int (length ex_content)"
    by (simp add: ex_db_def ex_digest_def ex_content_def)
  have la: "list_all (\<lambda>row. placement_holds ex_env row ex_content)
              (cat_join ex_db (ex_digest ex_content))"
    using ex_holds by (simp add: list_all_iff)
  from cat_returns_content [OF a ex_holds c d] a la show ?thesis by blast
qed

text \<open>
  C1 as stated fails for a hash with a placement whose row does not resolve, although
  the backend holds the recorded bytes: with storage ids of 16 bytes \<open>CatReadCloser\<close>
  panics in \<open>SliceToArr\<close>, and with a NULL compression algorithm in the scan of the row.
\<close>

theorem cat_returns_content_counterexample:
  "cat_join ex_db_short_id (ex_digest ex_content) \<noteq> []
 \<and> DownloadSection (ex_storage (replicate 16 3)) ''p'' 0 5
      = Inr (EncryptBlobEntry ex_keystream ex_content 0 ex_key)
 \<and> CatReadCloser ex_env ex_db_short_id (ex_digest ex_content) = Panic InvalidRow
 \<and> cat_join ex_db_null_alg (ex_digest ex_content) \<noteq> []
 \<and> CatReadCloser ex_env ex_db_null_alg (ex_digest ex_content) = Panic ScanError"
proof -
  have j1: "cat_join ex_db_short_id (ex_digest ex_content)
      = [(ex_entry, ex_blob,
          \<lparr>bs_blob_id = ex_blob_id, bs_storage_id = replicate 16 3, bs_path = ''p''\<rparr>,
          ex_storage_aa\<lparr>s_storage_id := replicate 16 3\<rparr>)]"
    by (simp add: cat_join_def ex_db_short_id_def ex_db_def ex_entry_def ex_empty_entry_def
        ex_blob_def ex_storage_aa_def ex_digest_def ex_content_def)
  have j2: "cat_join ex_db_null_alg (ex_digest ex_content)
      = [(ex_entry\<lparr>e_compression_alg := None\<rparr>, ex_blob,
          \<lparr>bs_blob_id = ex_blob_id, bs_storage_id = replicate 32 2, bs_path = ''p''\<rparr>,
          ex_storage_bb),
         (ex_entry\<lparr>e_compression_alg := None\<rparr>, ex_blob,
          \<lparr>bs_blob_id = ex_blob_id, bs_storage_id = replicate 32 3, bs_path = ''p''\<rparr>,
          ex_storage_aa)]"
    by (simp add: cat_join_def ex_db_null_alg_def ex_db_def ex_entry_def ex_blob_def
        ex_storage_bb_def ex_storage_aa_def)
  have c1: "CatReadCloser ex_env ex_db_short_id (ex_digest ex_content) = Panic InvalidRow"
    by (simp add: CatReadCloser_def cat_select_def cat_rows_def j1 cat_open_def ex_entry_def
        ex_storage_aa_def SliceToArr_def)
  have c2: "CatReadCloser ex_env ex_db_null_alg (ex_digest ex_content) = Panic ScanError"
    by (simp add: CatReadCloser_def cat_select_def cat_rows_def j2 cat_label_def cat_open_def
        ex_entry_def ex_storage_bb_def ex_storage_aa_def)
  from j1 j2 c1 c2 ex_section [of "replicate 16 3"] show ?thesis by simp
qed

subsection \<open>The keys of the two paths\<close>

lemma limited_section:
  assumes "objects st path = Some data" and "0 \<le> off" and "0 \<le> n" and "off + n \<le> int (length data)"
  shows "DownloadSection st path off n = Inr (take (nat n) (drop (nat off) data))"
    and "limited (Inr data) off n = Some (take (nat n) (drop (nat off) data))"
  using assms by (simp_all add: DownloadSection_def limited_def)

text \<open>
  C6 (amended). For every blob entry whose \<open>encryption_key\<close> column equals the
  \<open>encryption_key\<close> of its blob, the retrieval path, which decrypts the section of the
  entry under the key of the blob, and the paranoia path, which decrypts the same bytes
  of the blob under the key of the entry, yield the same plaintext.
\<close>

theorem same_key_same_plaintext:
  assumes "b_encryption_key b = e_encryption_key e"
    and "objects st (bs_path bs) = Some data"
    and "0 \<le> e_offset e" and "0 \<le> e_final_size e"
    and "e_offset e + e_final_size e \<le> int (length data)"
  shows "\<exists>view. limited (Inr data) (e_offset e) (e_final_size e) = Some view
             \<and> cat_decrypted env (e, b, bs, s) st = Inr (entry_decrypted env e view)"
  using assms limited_section [OF assms(2-5)]
  by (simp add: cat_decrypted_def entry_decrypted_def DecryptBlobEntry_def)

theorem same_key_same_plaintext_witness:
  "b_encryption_key ex_blob = e_encryption_key ex_entry
 \<and> (\<exists>view. limited (Inr ex_object) (e_offset ex_entry) (e_final_size ex_entry) = Some view
      \<and> cat_decrypted ex_env
           (ex_entry, ex_blob,
            \<lparr>bs_blob_id = ex_blob_id, bs_storage_id = replicate 32 3, bs_path = ''p''\<rparr>,
            ex_storage_aa) (ex_storage (replicate 32 3))
         = Inr (entry_decrypted ex_env ex_entry view))"
proof -
  let ?bs = "\<lparr>bs_blob_id = ex_blob_id, bs_storage_id = replicate 32 3, bs_path = ''p''\<rparr>"
  have a: "b_encryption_key ex_blob = e_encryption_key ex_entry"
    by (simp add: ex_blob_def ex_entry_def)
  have b: "objects (ex_storage (replicate 32 3)) (bs_path ?bs) = Some ex_object"
    by (simp add: ex_storage_def)
  have c: "0 \<le> e_offset ex_entry" "0 \<le> e_final_size ex_entry"
    by (simp_all add: ex_entry_def)
  have d: "e_offset ex_entry + e_final_size ex_entry \<le> int (length ex_object)"
    by (simp add: ex_entry_def ex_object_def EncryptBlobEntry_def crypt_bytes_length ex_content_def)
  from same_key_same_plaintext [OF a b c d, of ex_env ex_storage_aa] a show ?thesis by blast
qed

lemma ex_select_other_key:
  "cat_select ex_db_other_key (ex_digest ex_content) =
     Some (ex_entry\<lparr>e_encryption_key := replicate 16 8\<rparr>, ex_blob,
           \<lparr>bs_blob_id = ex_blob_id, bs_storage_id = replicate 32 3, bs_path = ''p''\<rparr>,
           ex_storage_aa)"
  by (simp add: cat_select_def cat_rows_def cat_join_def cat_label_def ex_db_other_key_def
      ex_db_def ex_entry_def ex_blob_def ex_storage_bb_def ex_storage_aa_def)

lemma ex_cat_plain:
  "cat_decrypted ex_env
      (ex_entry\<lparr>e_encryption_key := replicate 16 8\<rparr>, ex_blob,
       \<lparr>bs_blob_id = ex_blob_id, bs_storage_id = replicate 32 3, bs_path = ''p''\<rparr>, ex_storage_aa)
      (ex_storage (replicate 32 3)) = Inr ex_content"
  by (simp add: cat_decrypted_def ex_entry_def ex_section DecryptBlobEntry_def
      EncryptBlobEntry_def ex_blob_def ex_env_def crypt_bytes_involution)

lemma ex_paranoia_plain:
  "entry_decrypted ex_env (ex_entry\<lparr>e_encryption_key := replicate 16 8\<rparr>) (take 5 ex_object)
     = [103, 100, 111, 109, 104]"
  by code_simp

text \<open>
  C6 as stated fails: the two keys are read from two columns that nothing in the code
  relates. Where they differ, retrieval yields the content and paranoia other bytes.
\<close>

theorem different_keys_counterexample:
  "cat_select ex_db_other_key (ex_digest ex_content) =
     Some (ex_entry\<lparr>e_encryption_key := replicate 16 8\<rparr>, ex_blob,
           \<lparr>bs_blob_id = ex_blob_id, bs_storage_id = replicate 32 3, bs_path = ''p''\<rparr>,
           ex_storage_aa)
 \<and> b_encryption_key ex_blob \<noteq> e_encryption_key (ex_entry\<lparr>e_encryption_key := replicate 16 8\<rparr>)
 \<and> limited (Inr ex_object) 0 5 = Some (take 5 ex_object)
 \<and> cat_decrypted ex_env
      (ex_entry\<lparr>e_encryption_key := replicate 16 8\<rparr>, ex_blob,
       \<lparr>bs_blob_id = ex_blob_id, bs_storage_id = replicate 32 3, bs_path = ''p''\<rparr>, ex_storage_aa)
      (ex_storage (replicate 32 3))
    \<noteq> Inr (entry_decrypted ex_env (ex_entry\<lparr>e_encryption_key := replicate 16 8\<rparr>)
             (take 5 ex_object))"
proof -
  have k: "b_encryption_key ex_blob \<noteq> e_encryption_key (ex_entry\<lparr>e_encryption_key := replicate 16 8\<rparr>)"
    by (simp add: ex_blob_def ex_key_def)
  have l: "limited (Inr ex_object) 0 5 = Some (take 5 ex_object)"
    by (simp add: limited_def)
  have p: "ex_content \<noteq> [103, 100, 111, 109, 104]"
    by (simp add: ex_content_def)
  show ?thesis
    using k l p by (simp add: ex_select_other_key ex_cat_plain ex_paranoia_plain)
qed

subsection \<open>The loop of BlobReaderParanoia\<close>

lemma paranoia_entry_Return:
  assumes "paranoia_entry env rd pos e = Return p"
  shows "pos = e_offset e" and "p = e_offset e + e_final_size e" and "0 \<le> e_final_size e"
    and "entry_started pos e"
proof -
  from assms obtain alg where alg: "e_compression_alg e = Some alg"
    by (auto simp: paranoia_entry_def split: option.splits)
  from assms alg show pos: "pos = e_offset e"
    by (auto simp: paranoia_entry_def split: if_splits)
  from assms alg pos obtain out p' where d: "drain_entry env rd pos e alg = Return (out, p')"
    by (auto simp: paranoia_entry_def split: outcome.splits)
  from assms alg pos d show p: "p = e_offset e + e_final_size e"
    by (auto simp: paranoia_entry_def split: if_splits)
  from assms alg pos d have pp: "p' = p"
    by (auto simp: paranoia_entry_def split: if_splits)
  from d have "pos \<le> p'"
    by (auto simp: drain_entry_def split: option.splits)
  with pp p pos show "0 \<le> e_final_size e" by simp
  from alg pos show "entry_started pos e" by (simp add: entry_started_def)
qed

lemma drain_entry_bound:
  assumes "drain_entry env (Inr data) pos e alg = Return (out, p)"
    and "0 \<le> pos" and "pos \<le> int (length data)"
  shows "p \<le> int (length data)"
proof -
  from assms(1) obtain view used where
    v: "limited (Inr data) pos (e_final_size e) = Some view"
    and p: "p = pos + int (min used (length view))"
    by (auto simp: drain_entry_def split: option.splits)
  from v have "length view \<le> length data - nat pos"
    by (auto simp: limited_def)
  with p assms(2,3) show ?thesis by auto
qed

lemma paranoia_entry_bound:
  assumes "paranoia_entry env (Inr data) pos e = Return p"
    and "0 \<le> pos" and "pos \<le> int (length data)"
  shows "p \<le> int (length data)"
proof -
  from assms(1) obtain alg out where "drain_entry env (Inr data) pos e alg = Return (out, p)"
    by (auto simp: paranoia_entry_def split: option.splits if_splits outcome.splits)
  from drain_entry_bound [OF this assms(2,3)] show ?thesis .
qed

lemma paranoia_loop_Return:
  assumes "paranoia_loop env rd pos es = (started, Return p)"
  shows "contiguous pos es \<and> started = es \<and> p = pos + sum_list (map e_final_size es)"
  using assms
proof (induction es arbitrary: pos started)
  case Nil
  then show ?case by simp
next
  case (Cons e es)
  from Cons.prems obtain p' where e: "paranoia_entry env rd pos e = Return p'"
    by (cases "paranoia_entry env rd pos e") auto
  from Cons.prems e obtain tr where
    l: "paranoia_loop env rd p' es = (tr, Return p)" and s: "started = e # tr"
    by (auto split: prod.splits)
  note r = paranoia_entry_Return [OF e]
  from Cons.IH [OF l] r s show ?case by simp
qed

lemma paranoia_loop_bound:
  assumes "paranoia_loop env (Inr data) pos es = (started, Return p)"
    and "0 \<le> pos" and "pos \<le> int (length data)"
  shows "p \<le> int (length data)"
  using assms
proof (induction es arbitrary: pos started)
  case Nil
  then show ?case by simp
next
  case (Cons e es)
  from Cons.prems(1) obtain p' where e: "paranoia_entry env (Inr data) pos e = Return p'"
    by (cases "paranoia_entry env (Inr data) pos e") auto
  from Cons.prems(1) e obtain tr where
    l: "paranoia_loop env (Inr data) p' es = (tr, Return p)"
    by (auto split: prod.splits)
  have "p' \<le> int (length data)"
    using paranoia_entry_bound [OF e Cons.prems(2,3)] .
  moreover have "0 \<le> p'"
    using paranoia_entry_Return [OF e] Cons.prems(2) by simp
  ultimately show ?case using Cons.IH [OF l] by simp
qed

lemma paranoia_loop_prefix: "prefix (fst (paranoia_loop env rd pos es)) es"
proof (induction es arbitrary: pos)
  case Nil
  then show ?case by simp
next
  case (Cons e es)
  show ?case
  proof (cases "paranoia_entry env rd pos e")
    case (Return p')
    with Cons.IH [of p'] show ?thesis by (auto split: prod.splits)
  next
    case (Panic p)
    then show ?thesis by simp
  qed
qed


lemma paranoia_rows_sorted: "sorted (map entry_key (paranoia_rows db blobID))"
  by (simp add: paranoia_rows_def)

lemma paranoia_rows_set:
  "set (paranoia_rows db blobID) = {e \<in> set (blob_entries db). e_blob_id e = blobID}"
  by (auto simp: paranoia_rows_def)

lemma paranoia_rows_length:
  "length (paranoia_rows db blobID) = length (filter (\<lambda>e. e_blob_id e = blobID) (blob_entries db))"
  by (simp add: paranoia_rows_def)

lemma sorted_zero_first:
  assumes "sorted (map entry_key rows)" and "i < length rows" and "j < length rows"
    and "e_offset (rows ! i) = e_offset (rows ! j)"
    and "e_final_size (rows ! i) = 0" and "0 < e_final_size (rows ! j)"
  shows "i < j"
proof (rule ccontr)
  assume "\<not> i < j"
  then have "j \<le> i" by simp
  with assms(1,2) have "map entry_key rows ! j \<le> map entry_key rows ! i"
    by (simp add: sorted_iff_nth_mono del: nth_map)
  with assms(2,3) have "entry_key (rows ! j) \<le> entry_key (rows ! i)" by simp
  with assms(4,5,6) show False by (simp add: entry_key_def)
qed

lemma BlobReaderParanoia_started:
  "prefix (fst (BlobReaderParanoia env db rd blobID)) (paranoia_rows db blobID)"
proof -
  have "prefix (fst (paranoia_loop env rd 0 (paranoia_rows db blobID))) (paranoia_rows db blobID)"
    by (rule paranoia_loop_prefix)
  then show ?thesis
    by (auto simp: BlobReaderParanoia_def split: option.splits prod.splits outcome.splits)
qed

lemma BlobReaderParanoia_Return:
  assumes "BlobReaderParanoia env db rd blobID = (started, Return n)"
  obtains b pos where "length blobID = 32"
    and "find (\<lambda>b. b_blob_id b = blobID) (blobs db) = Some b"
    and "paranoia_loop env rd 0 (paranoia_rows db blobID) = (started, Return pos)"
    and "paranoia_tail env b rd pos = Return n"
  using assms
  by (auto simp: BlobReaderParanoia_def split: if_splits option.splits prod.splits outcome.splits)

text \<open>
  C5. The rows of a blob are queried in ascending order of (offset, final_size) and
  \<open>BlobReaderParanoia\<close> starts its entries in exactly that order: the entries it started
  are a prefix of the ordered rows, all of them when it returns. In particular, of two
  rows at the same offset, one of size 0 comes before one of positive size.
\<close>

theorem paranoia_order:
  "sorted (map entry_key (paranoia_rows db blobID))
 \<and> set (paranoia_rows db blobID) = {e \<in> set (blob_entries db). e_blob_id e = blobID}
 \<and> prefix (fst (BlobReaderParanoia env db rd blobID)) (paranoia_rows db blobID)
 \<and> (is_Return (snd (BlobReaderParanoia env db rd blobID)) \<longrightarrow>
      fst (BlobReaderParanoia env db rd blobID) = paranoia_rows db blobID)
 \<and> (\<forall>i j. i < length (paranoia_rows db blobID) \<and> j < length (paranoia_rows db blobID)
        \<and> e_offset (paranoia_rows db blobID ! i) = e_offset (paranoia_rows db blobID ! j)
        \<and> e_final_size (paranoia_rows db blobID ! i) = 0
        \<and> 0 < e_final_size (paranoia_rows db blobID ! j) \<longrightarrow> i < j)"
proof -
  have a: "is_Return (snd (BlobReaderParanoia env db rd blobID)) \<longrightarrow>
      fst (BlobReaderParanoia env db rd blobID) = paranoia_rows db blobID"
  proof
    assume "is_Return (snd (BlobReaderParanoia env db rd blobID))"
    then obtain started n where r: "BlobReaderParanoia env db rd blobID = (started, Return n)"
      by (cases "BlobReaderParanoia env db rd blobID"; cases "snd (BlobReaderParanoia env db rd blobID)") auto
    then obtain b pos where "paranoia_loop env rd 0 (paranoia_rows db blobID) = (started, Return pos)"
      by (rule BlobReaderParanoia_Return)
    from paranoia_loop_Return [OF this] r
    show "fst (BlobReaderParanoia env db rd blobID) = paranoia_rows db blobID" by simp
  qed
  show ?thesis
    using paranoia_rows_sorted [of db blobID] paranoia_rows_set [of db blobID]
      BlobReaderParanoia_started [of env db rd blobID] a
      sorted_zero_first [OF paranoia_rows_sorted [of db blobID]]
    by blast
qed

lemma ex_rows: "paranoia_rows ex_db ex_blob_id = [ex_empty_entry, ex_entry]"
  by (simp add: paranoia_rows_def ex_db_def ex_entry_def ex_empty_entry_def entry_key_def)

lemma ex_object_length: "length ex_object = 16"
  by (simp add: ex_object_def EncryptBlobEntry_def crypt_bytes_length ex_content_def)

lemma ex_object_take: "take 5 ex_object = crypt_bytes ex_keystream ex_content 0 ex_key"
  by (simp add: ex_object_def EncryptBlobEntry_def crypt_bytes_length ex_content_def)

lemma ex_object_drop: "drop 5 ex_object = crypt_bytes ex_keystream (replicate 11 0) 5 ex_padding_key"
  by (simp add: ex_object_def EncryptBlobEntry_def crypt_bytes_length ex_content_def)

lemma ex_empty_step: "paranoia_entry ex_env (Inr ex_object) 0 ex_empty_entry = Return 0"
  by (simp add: paranoia_entry_def drain_entry_def limited_def entry_decrypted_def
      ex_empty_entry_def ex_env_def ex_no_compression_def crypt_bytes_def)

lemma ex_entry_step: "paranoia_entry ex_env (Inr ex_object) 0 ex_entry = Return 5"
  by (simp add: paranoia_entry_def drain_entry_def limited_def entry_decrypted_def
      ex_entry_def ex_env_def ex_no_compression_def ex_object_take crypt_bytes_involution
      crypt_bytes_length ex_content_def)

lemma ex_loop:
  "paranoia_loop ex_env (Inr ex_object) 0 [ex_empty_entry, ex_entry]
     = ([ex_empty_entry, ex_entry], Return 5)"
  by (simp add: ex_empty_step ex_entry_step)

lemma ex_tail: "paranoia_tail ex_env ex_blob (Inr ex_object) 5 = Return 16"
  by (simp add: paranoia_tail_def Let_def ex_object_drop ex_env_def ex_blob_def
      crypt_bytes_involution crypt_bytes_length ex_object_length)

lemma ex_paranoia:
  "BlobReaderParanoia ex_env ex_db (Inr ex_object) ex_blob_id
     = ([ex_empty_entry, ex_entry], Return 16)"
proof -
  have "find (\<lambda>b. b_blob_id b = ex_blob_id) (blobs ex_db) = Some ex_blob"
    by (simp add: ex_db_def ex_blob_def)
  moreover have "length ex_blob_id = 32" by (simp add: ex_blob_id_def)
  moreover have "paranoia_loop ex_env (Inr ex_object) 0 (paranoia_rows ex_db ex_blob_id)
                   = ([ex_empty_entry, ex_entry], Return 5)"
    by (simp only: ex_rows ex_loop)
  ultimately show ?thesis
    by (simp add: BlobReaderParanoia_def ex_tail)
qed


subsection \<open>Alignment of the entries\<close>

lemma contiguous_sum_nonneg: "contiguous q es \<Longrightarrow> 0 \<le> sum_list (map e_final_size es)"
  by (induction es arbitrary: q) auto

lemma paranoia_loop_mono:
  assumes "paranoia_loop env rd pos es = (started, Return p)"
  shows "pos \<le> p"
  using paranoia_loop_Return [OF assms] contiguous_sum_nonneg [of pos es] by simp

lemma paranoia_loop_append:
  assumes "paranoia_loop env rd pos pre = (tr, Return q)"
  shows "paranoia_loop env rd pos (pre @ es)
           = (case paranoia_loop env rd q es of (tr', r) \<Rightarrow> (tr @ tr', r))"
  using assms
proof (induction pre arbitrary: pos tr)
  case Nil
  then show ?case by (simp split: prod.splits)
next
  case (Cons e pre)
  from Cons.prems obtain p' where e: "paranoia_entry env rd pos e = Return p'"
    by (cases "paranoia_entry env rd pos e") auto
  from Cons.prems e obtain tr0 where
    l: "paranoia_loop env rd p' pre = (tr0, Return q)" and s: "tr = e # tr0"
    by (auto split: prod.splits)
  from Cons.IH [OF l] e s show ?case by (simp split: prod.splits)
qed

text \<open>
  C3. An iteration of the loop of \<open>BlobReaderParanoia\<close> that completes started with the
  count of bytes read equal to the offset of the entry and ended with it equal to the
  offset plus the final size. If the count differs from the offset before the entry is
  drained, or from offset plus final size afterwards, the iteration panics with the
  message of the check (a \<open>Corrupt\<close> failure of the specification), and the panic of an
  iteration is the outcome of the run. Hence the entries of a blob whose verification
  returns cover contiguous ranges without overlap, starting at offset 0.
\<close>

theorem paranoia_alignment:
  "(paranoia_entry env rd pos e = Return p \<longrightarrow>
      pos = e_offset e \<and> p = e_offset e + e_final_size e)
 \<and> (e_compression_alg e = Some alg \<and> pos \<noteq> e_offset e \<longrightarrow>
      paranoia_entry env rd pos e = Panic Misaligned \<and> Corrupt Misaligned)
 \<and> (e_compression_alg e = Some alg \<and> pos = e_offset e
      \<and> drain_entry env rd pos e alg = Return (out, p') \<and> p' \<noteq> e_offset e + e_final_size e \<longrightarrow>
      paranoia_entry env rd pos e = Panic EntryWrongSize \<and> Corrupt EntryWrongSize)
 \<and> (paranoia_rows db blobID = pre @ e # post \<and> paranoia_loop env rd 0 pre = (tr, Return pos)
      \<and> paranoia_entry env rd pos e = Panic x
      \<and> length blobID = 32 \<and> find (\<lambda>b. b_blob_id b = blobID) (blobs db) = Some b \<longrightarrow>
      snd (BlobReaderParanoia env db rd blobID) = Panic x)
 \<and> (BlobReaderParanoia env db rd blobID = (started, Return n) \<longrightarrow>
      contiguous 0 (paranoia_rows db blobID))"
proof -
  have a: "paranoia_entry env rd pos e = Return p \<longrightarrow>
      pos = e_offset e \<and> p = e_offset e + e_final_size e"
    using paranoia_entry_Return(1,2) [of env rd pos e p] by blast
  have b: "e_compression_alg e = Some alg \<and> pos \<noteq> e_offset e \<longrightarrow>
      paranoia_entry env rd pos e = Panic Misaligned \<and> Corrupt Misaligned"
    by (simp add: paranoia_entry_def)
  have c: "e_compression_alg e = Some alg \<and> pos = e_offset e
      \<and> drain_entry env rd pos e alg = Return (out, p') \<and> p' \<noteq> e_offset e + e_final_size e \<longrightarrow>
      paranoia_entry env rd pos e = Panic EntryWrongSize \<and> Corrupt EntryWrongSize"
    by (auto simp: paranoia_entry_def)
  have d: "paranoia_rows db blobID = pre @ e # post \<and> paranoia_loop env rd 0 pre = (tr, Return pos)
      \<and> paranoia_entry env rd pos e = Panic x
      \<and> length blobID = 32 \<and> find (\<lambda>b. b_blob_id b = blobID) (blobs db) = Some b \<longrightarrow>
      snd (BlobReaderParanoia env db rd blobID) = Panic x"
  proof (intro impI, elim conjE)
    assume r: "paranoia_rows db blobID = pre @ e # post"
      and l: "paranoia_loop env rd 0 pre = (tr, Return pos)"
      and e: "paranoia_entry env rd pos e = Panic x"
      and i: "length blobID = 32" and f: "find (\<lambda>b. b_blob_id b = blobID) (blobs db) = Some b"
    have "snd (paranoia_loop env rd 0 (pre @ e # post)) = Panic x"
      using paranoia_loop_append [OF l, of "e # post"] e by simp
    with r i f show "snd (BlobReaderParanoia env db rd blobID) = Panic x"
      by (auto simp: BlobReaderParanoia_def split: prod.splits outcome.splits)
  qed
  have e: "BlobReaderParanoia env db rd blobID = (started, Return n) \<longrightarrow>
      contiguous 0 (paranoia_rows db blobID)"
  proof
    assume "BlobReaderParanoia env db rd blobID = (started, Return n)"
    then obtain b pos where "paranoia_loop env rd 0 (paranoia_rows db blobID) = (started, Return pos)"
      by (rule BlobReaderParanoia_Return)
    from paranoia_loop_Return [OF this] show "contiguous 0 (paranoia_rows db blobID)" by simp
  qed
  from a b c d e show ?thesis by blast
qed

subsection \<open>Padding, size and hash of the blob\<close>

lemma paranoia_tail_Return:
  assumes "paranoia_tail env b rd pos = Return n"
    and "0 \<le> pos" and "\<And>d. rd = Inr d \<Longrightarrow> pos \<le> int (length d)"
  obtains data where "rd = Inr data" and "n = b_size b"
    and "crypt_bytes (keystream env) (drop (nat pos) data) pos (b_padding_key b)
           = replicate (length (drop (nat pos) data)) 0"
    and "int (length data) = b_size b"
    and "sha256 env data = b_final_hash b"
proof -
  from assms(1) obtain data where rd: "rd = Inr data"
    by (cases rd) (auto simp: paranoia_tail_def)
  from assms(3) [OF rd] have le: "pos \<le> int (length data)" .
  let ?rest = "drop (nat pos) data"
  have sz: "pos + int (length ?rest) = int (length data)"
    using assms(2) le by simp
  from assms(1) rd have z: "crypt_bytes (keystream env) ?rest pos (b_padding_key b)
           = replicate (length ?rest) 0"
    by (auto simp: paranoia_tail_def Let_def crypt_bytes_length split: if_splits)
  from assms(1) rd have s: "pos + int (length ?rest) = b_size b"
    by (auto simp: paranoia_tail_def Let_def split: if_splits)
  from assms(1) rd have h: "b_final_hash b = sha256 env (take (nat (pos + int (length ?rest))) data)"
    by (auto simp: paranoia_tail_def Let_def split: if_splits)
  from assms(1) rd have n: "n = b_size b"
    by (auto simp: paranoia_tail_def Let_def split: if_splits)
  have "take (nat (pos + int (length ?rest))) data = data"
    using sz by simp
  with h have h': "sha256 env data = b_final_hash b" by simp
  have sl: "int (length data) = b_size b" using s unfolding sz .
  from rd n z sl h' show ?thesis by (rule that)
qed

lemma paranoia_tail_Panic:
  assumes "paranoia_tail env b (Inr data) pos = Panic q"
  shows "Corrupt q"
  using assms by (auto simp: paranoia_tail_def Let_def split: if_splits)

text \<open>
  C2. If \<open>BlobReaderParanoia\<close> returns on a blob, then the bytes after the last entry,
  decrypted under the padding key of the blob from the end of the last entry, are all
  zero; the number of bytes read is the size of the blob, so the final sizes of the
  entries plus the length of the padding add up to it; and the digest of all the bytes
  downloaded is the final hash recorded for the blob. A violation of one of the three
  checks is a panic that the specification calls \<open>Corrupt\<close>.
\<close>

theorem paranoia_success:
  "(BlobReaderParanoia env db rd blobID = (started, Return n) \<longrightarrow>
      (\<exists>b data. find (\<lambda>b. b_blob_id b = blobID) (blobs db) = Some b \<and> rd = Inr data
         \<and> n = b_size b
         \<and> (let E = sum_list (map e_final_size (paranoia_rows db blobID));
                 padding = drop (nat E) data
             in crypt_bytes (keystream env) padding E (b_padding_key b)
                  = replicate (length padding) 0
              \<and> int (length data) = b_size b
              \<and> E + int (length padding) = b_size b
              \<and> sha256 env data = b_final_hash b)))
 \<and> (paranoia_tail env b' (Inr data') pos = Panic q \<longrightarrow> Corrupt q)"
proof -
  have a: "BlobReaderParanoia env db rd blobID = (started, Return n) \<longrightarrow>
      (\<exists>b data. find (\<lambda>b. b_blob_id b = blobID) (blobs db) = Some b \<and> rd = Inr data
         \<and> n = b_size b
         \<and> (let E = sum_list (map e_final_size (paranoia_rows db blobID));
                 padding = drop (nat E) data
             in crypt_bytes (keystream env) padding E (b_padding_key b)
                  = replicate (length padding) 0
              \<and> int (length data) = b_size b
              \<and> E + int (length padding) = b_size b
              \<and> sha256 env data = b_final_hash b))"
  proof
    assume "BlobReaderParanoia env db rd blobID = (started, Return n)"
    then obtain b p where f: "find (\<lambda>b. b_blob_id b = blobID) (blobs db) = Some b"
      and l: "paranoia_loop env rd 0 (paranoia_rows db blobID) = (started, Return p)"
      and t: "paranoia_tail env b rd p = Return n"
      by (rule BlobReaderParanoia_Return)
    let ?E = "sum_list (map e_final_size (paranoia_rows db blobID))"
    from paranoia_loop_Return [OF l] have p: "p = ?E" by simp
    from paranoia_loop_mono [OF l] have p0: "0 \<le> p" .
    have pl: "p \<le> int (length d)" if "rd = Inr d" for d
      using paranoia_loop_bound [of env d 0 "paranoia_rows db blobID" started p] l that by auto
    from t p0 pl obtain data where rd: "rd = Inr data" and n: "n = b_size b"
      and z: "crypt_bytes (keystream env) (drop (nat p) data) p (b_padding_key b)
           = replicate (length (drop (nat p) data)) 0"
      and s: "int (length data) = b_size b"
      and h: "sha256 env data = b_final_hash b"
      by (rule paranoia_tail_Return)
    from pl [OF rd] have "p \<le> int (length data)" .
    with p0 s have "p + int (length (drop (nat p) data)) = b_size b" by simp
    with f rd n z s h p show "\<exists>b data. find (\<lambda>b. b_blob_id b = blobID) (blobs db) = Some b \<and> rd = Inr data
         \<and> n = b_size b
         \<and> (let E = sum_list (map e_final_size (paranoia_rows db blobID));
                 padding = drop (nat E) data
             in crypt_bytes (keystream env) padding E (b_padding_key b)
                  = replicate (length padding) 0
              \<and> int (length data) = b_size b
              \<and> E + int (length padding) = b_size b
              \<and> sha256 env data = b_final_hash b)"
      by (simp add: Let_def)
  qed
  from a paranoia_tail_Panic [of env b' data' pos q] show ?thesis by blast
qed

subsection \<open>Verification of the small installation\<close>

lemma ex_find_blob: "find (\<lambda>b. b_blob_id b = ex_blob_id) (blobs ex_db) = Some ex_blob"
  by (simp add: ex_db_def ex_blob_def)

lemma ex_bad_padding:
  "paranoia_tail ex_env ex_blob (Inr (ex_object[15 := 255])) 5 = Panic PaddingNotZero"
  by code_simp

theorem paranoia_success_witness:
  "BlobReaderParanoia ex_env ex_db (Inr ex_object) ex_blob_id
     = ([ex_empty_entry, ex_entry], Return 16)
 \<and> (\<exists>b data. find (\<lambda>b. b_blob_id b = ex_blob_id) (blobs ex_db) = Some b
        \<and> (Inr ex_object :: stream) = Inr data \<and> 16 = b_size b
        \<and> (let E = sum_list (map e_final_size (paranoia_rows ex_db ex_blob_id));
                padding = drop (nat E) data
            in crypt_bytes (keystream ex_env) padding E (b_padding_key b)
                 = replicate (length padding) 0
             \<and> int (length data) = b_size b
             \<and> E + int (length padding) = b_size b
             \<and> sha256 ex_env data = b_final_hash b))
 \<and> paranoia_tail ex_env ex_blob (Inr (ex_object[15 := 255])) 5 = Panic PaddingNotZero
 \<and> Corrupt PaddingNotZero"
  using paranoia_success [of ex_env ex_db "Inr ex_object" ex_blob_id "[ex_empty_entry, ex_entry]" 16
      ex_blob "ex_object[15 := 255]" 5 PaddingNotZero]
    ex_paranoia ex_bad_padding
  by blast

theorem paranoia_order_witness:
  "paranoia_rows ex_db ex_blob_id = [ex_empty_entry, ex_entry]
 \<and> blob_entries ex_db = [ex_entry, ex_empty_entry]
 \<and> sorted (map entry_key (paranoia_rows ex_db ex_blob_id))
 \<and> fst (BlobReaderParanoia ex_env ex_db (Inr ex_object) ex_blob_id) = paranoia_rows ex_db ex_blob_id
 \<and> e_final_size (paranoia_rows ex_db ex_blob_id ! 0) = 0
 \<and> 0 < e_final_size (paranoia_rows ex_db ex_blob_id ! 1)"
proof -
  have r: "is_Return (snd (BlobReaderParanoia ex_env ex_db (Inr ex_object) ex_blob_id))"
    by (simp add: ex_paranoia)
  have i: "(0::nat) < length (paranoia_rows ex_db ex_blob_id) \<and> (1::nat) < length (paranoia_rows ex_db ex_blob_id)
     \<and> e_offset (paranoia_rows ex_db ex_blob_id ! 0) = e_offset (paranoia_rows ex_db ex_blob_id ! 1)
     \<and> e_final_size (paranoia_rows ex_db ex_blob_id ! 0) = 0
     \<and> 0 < e_final_size (paranoia_rows ex_db ex_blob_id ! 1)"
    by (simp add: ex_rows ex_entry_def ex_empty_entry_def)
  have b: "blob_entries ex_db = [ex_entry, ex_empty_entry]" by (simp add: ex_db_def)
  from paranoia_order [of ex_db ex_blob_id ex_env "Inr ex_object"] r i b ex_rows
  show ?thesis by blast
qed

lemma ex_rows_other_key:
  "paranoia_rows ex_db_other_key ex_blob_id = [] @ ex_entry\<lparr>e_encryption_key := replicate 16 8\<rparr> # []"
  by (simp add: paranoia_rows_def ex_db_other_key_def ex_db_def ex_entry_def)

lemma ex_entry_other_key:
  "paranoia_entry ex_env (Inr ex_object) 0 (ex_entry\<lparr>e_encryption_key := replicate 16 8\<rparr>)
     = Panic WrongData"
  by code_simp

lemma ex_drain_long:
  "drain_entry ex_env (Inr ex_object) 0 (ex_entry\<lparr>e_final_size := 20\<rparr>) []
     = Return (entry_decrypted ex_env (ex_entry\<lparr>e_final_size := 20\<rparr>) ex_object, 16)"
  by (simp add: drain_entry_def limited_def ex_env_def ex_no_compression_def ex_object_length
      entry_decrypted_def crypt_bytes_length)

theorem paranoia_alignment_witness:
  "paranoia_entry ex_env (Inr ex_object) 0 ex_entry = Return 5
 \<and> 0 = e_offset ex_entry \<and> 5 = e_offset ex_entry + e_final_size ex_entry
 \<and> paranoia_entry ex_env (Inr ex_object) 3 ex_entry = Panic Misaligned
 \<and> paranoia_entry ex_env (Inr ex_object) 0 (ex_entry\<lparr>e_final_size := 20\<rparr>) = Panic EntryWrongSize
 \<and> snd (BlobReaderParanoia ex_env ex_db_other_key (Inr ex_object) ex_blob_id) = Panic WrongData
 \<and> contiguous 0 (paranoia_rows ex_db ex_blob_id)"
proof -
  note t = paranoia_alignment [where env = ex_env and rd = "Inr ex_object"]
  have alg: "e_compression_alg ex_entry = Some []" by (simp add: ex_entry_def)
  have a: "0 = e_offset ex_entry \<and> 5 = e_offset ex_entry + e_final_size ex_entry"
    using t [of 0 ex_entry 5] ex_entry_step by blast
  have b: "paranoia_entry ex_env (Inr ex_object) 3 ex_entry = Panic Misaligned"
    using t [of 3 ex_entry _ "[]"] alg by (simp add: ex_entry_def)
  have c: "paranoia_entry ex_env (Inr ex_object) 0 (ex_entry\<lparr>e_final_size := 20\<rparr>) = Panic EntryWrongSize"
    using t [of 0 "ex_entry\<lparr>e_final_size := 20\<rparr>" _ "[]"
        "entry_decrypted ex_env (ex_entry\<lparr>e_final_size := 20\<rparr>) ex_object" 16] ex_drain_long
    by (simp add: ex_entry_def)
  have f: "find (\<lambda>b. b_blob_id b = ex_blob_id) (blobs ex_db_other_key) = Some ex_blob"
    by (simp add: ex_db_other_key_def ex_db_def ex_blob_def)
  have l: "length ex_blob_id = 32" by (simp add: ex_blob_id_def)
  have d: "snd (BlobReaderParanoia ex_env ex_db_other_key (Inr ex_object) ex_blob_id) = Panic WrongData"
    using t [of 0 "ex_entry\<lparr>e_encryption_key := replicate 16 8\<rparr>" _ _ _ _ ex_db_other_key ex_blob_id
        "[]" "[]" "[]" WrongData ex_blob] ex_rows_other_key ex_entry_other_key f l
    by simp
  have e: "contiguous 0 (paranoia_rows ex_db ex_blob_id)"
    using t [of _ _ _ _ _ _ ex_db ex_blob_id _ _ _ _ _ "[ex_empty_entry, ex_entry]" 16] ex_paranoia
    by blast
  from a b c d e ex_entry_step show ?thesis by blast
qed

subsection \<open>The lines of standard input\<close>

lemma hex_digit_decodes: "hex_digit c \<Longrightarrow> fromHexChar c \<noteq> None"
  by (auto simp: hex_digit_def fromHexChar_def)

lemma decodes_hex_digit_all: "\<forall>c::char. fromHexChar c \<noteq> None \<longrightarrow> hex_digit c"
  by code_simp

lemma fromHexChar_None: "\<not> hex_digit c \<Longrightarrow> fromHexChar c = None"
  using decodes_hex_digit_all by blast

lemma DecodeString_Some:
  "list_all hex_digit l \<Longrightarrow> even (length l) \<Longrightarrow>
     \<exists>bs. DecodeString l = Some bs \<and> 2 * length bs = length l"
proof (induction l rule: induct_list012)
  case 1
  then show ?case by simp
next
  case (2 c)
  then show ?case by simp
next
  case (3 c d cs)
  from "3.prems" have cd: "hex_digit c" "hex_digit d"
    and cs: "list_all hex_digit cs" "even (length cs)"
    by simp_all
  from cd obtain a b where ab: "fromHexChar c = Some a" "fromHexChar d = Some b"
    using hex_digit_decodes by blast
  from "3.IH"(1) [OF cs] obtain bs where "DecodeString cs = Some bs" "2 * length bs = length cs"
    by blast
  with ab show ?case by simp
qed

lemma DecodeString_None:
  "\<not> list_all hex_digit l \<Longrightarrow> DecodeString l = None"
proof (induction l rule: induct_list012)
  case 1
  then show ?case by simp
next
  case (2 c)
  then show ?case by simp
next
  case (3 c d cs)
  show ?case
  proof (cases "hex_digit c \<and> hex_digit d")
    case True
    with "3.prems" have "\<not> list_all hex_digit cs" by simp
    then have n: "DecodeString cs = None" by (rule "3.IH"(1))
    from True obtain a b where "fromHexChar c = Some a" "fromHexChar d = Some b"
      using hex_digit_decodes by blast
    with n show ?thesis by simp
  next
    case False
    show ?thesis
    proof (cases "hex_digit c")
      case True
      with False have "\<not> hex_digit d" by simp
      then have "fromHexChar d = None" by (rule fromHexChar_None)
      then show ?thesis by (cases "fromHexChar c") simp_all
    next
      case False
      then have "fromHexChar c = None" by (rule fromHexChar_None)
      then show ?thesis by simp
    qed
  qed
qed

lemma well_formed_decodes:
  assumes "well_formed_line l"
  shows "\<exists>blobID. DecodeString l = Some blobID \<and> length blobID = 32"
proof -
  from assms have h: "list_all hex_digit l" and len: "length l = 64"
    by (simp_all add: well_formed_line_def)
  from len have "even (length l)" by simp
  from DecodeString_Some [OF h this] obtain bs where
    d: "DecodeString l = Some bs" and b: "2 * length bs = length l" by blast
  from b len have "length bs = 32" by linarith
  with d show ?thesis by blast
qed

lemma paranoia_lines_skip_blank:
  "paranoia_lines verify (filter (\<lambda>l. l \<noteq> []) ls) sz = paranoia_lines verify ls sz"
proof (induction ls arbitrary: sz)
  case Nil
  then show ?case by simp
next
  case (Cons l ls)
  then show ?case by (simp split: option.splits outcome.splits)
qed

lemma line_ids_Cons_blank: "line_ids ([] # ls) = line_ids ls"
  by (simp add: line_ids_def)

lemma line_ids_Cons:
  "l \<noteq> [] \<Longrightarrow> DecodeString l = Some blobID \<Longrightarrow> line_ids (l # ls) = blobID # line_ids ls"
  by (simp add: line_ids_def List.map_filter_simps)

lemma paranoia_lines_good_prefix:
  assumes "list_all (\<lambda>l. l = [] \<or> well_formed_line l) pre"
    and "list_all (\<lambda>blobID. is_Return (verify blobID)) (line_ids pre)"
  shows "\<exists>sz'. paranoia_lines verify (pre @ rest) sz
           = (case paranoia_lines verify rest sz' of (ids, r) \<Rightarrow> (line_ids pre @ ids, r))"
  using assms
proof (induction pre arbitrary: sz)
  case Nil
  then show ?case by (auto simp: line_ids_def List.map_filter_simps split: prod.splits)
next
  case (Cons l pre)
  show ?case
  proof (cases "l = []")
    case True
    with Cons.prems have "list_all (\<lambda>l. l = [] \<or> well_formed_line l) pre"
      and "list_all (\<lambda>blobID. is_Return (verify blobID)) (line_ids pre)"
      by (simp_all add: line_ids_Cons_blank)
    from Cons.IH [OF this, of sz] True show ?thesis
      by (simp add: line_ids_Cons_blank)
  next
    case False
    with Cons.prems(1) have wf: "well_formed_line l"
      and pre: "list_all (\<lambda>l. l = [] \<or> well_formed_line l) pre" by simp_all
    from well_formed_decodes [OF wf] obtain blobID where d: "DecodeString l = Some blobID" by blast
    have ids: "line_ids (l # pre) = blobID # line_ids pre"
      using False d by (rule line_ids_Cons)
    with Cons.prems(2) obtain n where v: "verify blobID = Return n"
      and vs: "list_all (\<lambda>blobID. is_Return (verify blobID)) (line_ids pre)"
      by (cases "verify blobID") auto
    from Cons.IH [OF pre vs, of "sz + n"] obtain sz' where
      "paranoia_lines verify (pre @ rest) (sz + n)
         = (case paranoia_lines verify rest sz' of (ids, r) \<Rightarrow> (line_ids pre @ ids, r))" ..
    then have "paranoia_lines verify ((l # pre) @ rest) sz
         = (case paranoia_lines verify rest sz' of (ids, r) \<Rightarrow> (line_ids (l # pre) @ ids, r))"
      using False wf d v ids by (simp add: well_formed_line_def split: prod.splits)
    then show ?thesis ..
  qed
qed


lemma paranoia_lines_all_good:
  assumes "list_all (\<lambda>l. l = [] \<or> well_formed_line l) ls"
    and "list_all (\<lambda>blobID. is_Return (verify blobID)) (line_ids ls)"
  shows "fst (paranoia_lines verify ls sz) = line_ids ls
       \<and> is_Return (snd (paranoia_lines verify ls sz))"
proof -
  from paranoia_lines_good_prefix [OF assms, of "[]" sz] obtain sz' where
    "paranoia_lines verify (ls @ []) sz
       = (case paranoia_lines verify [] sz' of (ids, r) \<Rightarrow> (line_ids ls @ ids, r))" ..
  then show ?thesis by simp
qed

lemma paranoia_lines_first_bad:
  assumes "list_all (\<lambda>l. l = [] \<or> well_formed_line l) pre"
    and "list_all (\<lambda>blobID. is_Return (verify blobID)) (line_ids pre)"
    and "bad \<noteq> []" and "\<not> well_formed_line bad"
  shows "fst (paranoia_lines verify (pre @ bad # post) sz) = line_ids pre
       \<and> snd (paranoia_lines verify (pre @ bad # post) sz)
           = (if length bad \<noteq> 64 then Panic LineLength else Panic HexError)"
proof -
  from paranoia_lines_good_prefix [OF assms(1,2), of "bad # post" sz] obtain sz' where
    p: "paranoia_lines verify (pre @ bad # post) sz
       = (case paranoia_lines verify (bad # post) sz' of (ids, r) \<Rightarrow> (line_ids pre @ ids, r))" ..
  have "paranoia_lines verify (bad # post) sz'
          = ([], if length bad \<noteq> 64 then Panic LineLength else Panic HexError)"
  proof (cases "length bad = 64")
    case True
    with assms(4) have "DecodeString bad = None"
      by (simp add: well_formed_line_def DecodeString_None)
    with assms(3) True show ?thesis by simp
  next
    case False
    with assms(3) show ?thesis by simp
  qed
  with p show ?thesis by simp
qed

lemma split_lines_nonempty: "split_lines s \<noteq> []"
  by (induction s) (auto split: list.splits)

lemma split_lines_concat:
  "concat (map (\<lambda>l. l @ [CHR 0x0A]) (split_lines s)) = s @ [CHR 0x0A]"
proof (induction s)
  case Nil
  then show ?case by simp
next
  case (Cons c cs)
  obtain l ls where "split_lines cs = l # ls"
    using split_lines_nonempty [of cs] by (cases "split_lines cs") auto
  with Cons show ?case by auto
qed

lemma split_lines_no_newline: "list_all (\<lambda>l. CHR 0x0A \<notin> set l) (split_lines s)"
proof (induction s)
  case Nil
  then show ?case by simp
next
  case (Cons c cs)
  obtain l ls where "split_lines cs = l # ls"
    using split_lines_nonempty [of cs] by (cases "split_lines cs") auto
  with Cons show ?case by auto
qed

text \<open>
  C8. With a storage selected, \<open>BlobParanoia\<close> runs the loop over the pieces of standard
  input between newlines. Blank lines have no effect on the run. A line of exactly 64
  hexadecimal characters decodes to a blob id of 32 bytes. When every line is blank or
  well formed and every verification returns, the ids handed to the verification are
  those of the lines that are not blank, in order, and the run returns. At the first
  line that is neither blank nor well formed the run panics, about the length of the
  line or about its decoding, and the ids verified are those of the lines before it:
  no later line is processed.
\<close>

theorem paranoia_lines_input:
  "paranoia_lines verify (filter (\<lambda>l. l \<noteq> []) ls) sz = paranoia_lines verify ls sz
 \<and> (well_formed_line l \<longrightarrow> (\<exists>blobID. DecodeString l = Some blobID \<and> length blobID = 32))
 \<and> (list_all (\<lambda>l. l = [] \<or> well_formed_line l) ls
      \<and> list_all (\<lambda>blobID. is_Return (verify blobID)) (line_ids ls) \<longrightarrow>
      fst (paranoia_lines verify ls sz) = line_ids ls
      \<and> is_Return (snd (paranoia_lines verify ls sz)))
 \<and> (list_all (\<lambda>l. l = [] \<or> well_formed_line l) pre
      \<and> list_all (\<lambda>blobID. is_Return (verify blobID)) (line_ids pre)
      \<and> bad \<noteq> [] \<and> \<not> well_formed_line bad \<longrightarrow>
      fst (paranoia_lines verify (pre @ bad # post) sz) = line_ids pre
      \<and> snd (paranoia_lines verify (pre @ bad # post) sz)
          = (if length bad \<noteq> 64 then Panic LineLength else Panic HexError))
 \<and> (StorageSelect env label = Some st \<longrightarrow>
      BlobParanoia env db label stdin
        = paranoia_lines (verify_blob env db st) (split_lines stdin) 0)
 \<and> concat (map (\<lambda>l. l @ [CHR 0x0A]) (split_lines stdin)) = stdin @ [CHR 0x0A]
 \<and> list_all (\<lambda>l. CHR 0x0A \<notin> set l) (split_lines stdin)"
proof -
  have a: "paranoia_lines verify (filter (\<lambda>l. l \<noteq> []) ls) sz = paranoia_lines verify ls sz"
    by (rule paranoia_lines_skip_blank)
  have b: "well_formed_line l \<longrightarrow> (\<exists>blobID. DecodeString l = Some blobID \<and> length blobID = 32)"
    using well_formed_decodes [of l] by (rule impI)
  have c: "list_all (\<lambda>l. l = [] \<or> well_formed_line l) ls
      \<and> list_all (\<lambda>blobID. is_Return (verify blobID)) (line_ids ls) \<longrightarrow>
      fst (paranoia_lines verify ls sz) = line_ids ls
      \<and> is_Return (snd (paranoia_lines verify ls sz))"
  proof (intro impI, elim conjE)
    assume "list_all (\<lambda>l. l = [] \<or> well_formed_line l) ls"
      and "list_all (\<lambda>blobID. is_Return (verify blobID)) (line_ids ls)"
    then show "fst (paranoia_lines verify ls sz) = line_ids ls
      \<and> is_Return (snd (paranoia_lines verify ls sz))"
      by (rule paranoia_lines_all_good)
  qed
  have d: "list_all (\<lambda>l. l = [] \<or> well_formed_line l) pre
      \<and> list_all (\<lambda>blobID. is_Return (verify blobID)) (line_ids pre)
      \<and> bad \<noteq> [] \<and> \<not> well_formed_line bad \<longrightarrow>
      fst (paranoia_lines verify (pre @ bad # post) sz) = line_ids pre
      \<and> snd (paranoia_lines verify (pre @ bad # post) sz)
          = (if length bad \<noteq> 64 then Panic LineLength else Panic HexError)"
  proof (intro impI, elim conjE)
    assume "list_all (\<lambda>l. l = [] \<or> well_formed_line l) pre"
      and "list_all (\<lambda>blobID. is_Return (verify blobID)) (line_ids pre)"
      and "bad \<noteq> []" and "\<not> well_formed_line bad"
    then show "fst (paranoia_lines verify (pre @ bad # post) sz) = line_ids pre
      \<and> snd (paranoia_lines verify (pre @ bad # post) sz)
          = (if length bad \<noteq> 64 then Panic LineLength else Panic HexError)"
      by (rule paranoia_lines_first_bad)
  qed
  have e: "StorageSelect env label = Some st \<longrightarrow>
      BlobParanoia env db label stdin
        = paranoia_lines (verify_blob env db st) (split_lines stdin) 0"
    by (simp add: BlobParanoia_def)
  have f: "concat (map (\<lambda>l. l @ [CHR 0x0A]) (split_lines stdin)) = stdin @ [CHR 0x0A]"
    by (rule split_lines_concat)
  have g: "list_all (\<lambda>l. CHR 0x0A \<notin> set l) (split_lines stdin)"
    by (rule split_lines_no_newline)
  show ?thesis
    by (rule conjI [OF a conjI [OF b conjI [OF c conjI [OF d conjI [OF e conjI [OF f g]]]]]])
qed

lemma ex_line_decodes:
  "DecodeString ''0101010101010101010101010101010101010101010101010101010101010101'' = Some ex_blob_id"
  by code_simp

lemma ex_line_well_formed:
  "well_formed_line ''0101010101010101010101010101010101010101010101010101010101010101''"
  by (simp add: well_formed_line_def hex_digit_def)

lemma ex_verify: "verify_blob ex_env ex_db (ex_storage (replicate 32 3)) ex_blob_id = Return 16"
proof -
  have "DownloadSection (ex_storage (replicate 32 3)) ''p'' 0 16 = Inr ex_object"
    by (simp add: DownloadSection_def ex_storage_def ex_object_length)
  moreover have "find (\<lambda>bs. bs_blob_id bs = ex_blob_id \<and> bs_storage_id bs = replicate 32 3)
      (blob_storage ex_db)
      = Some \<lparr>bs_blob_id = ex_blob_id, bs_storage_id = replicate 32 3, bs_path = ''p''\<rparr>"
    by (simp add: ex_db_def)
  ultimately have "DownloadEntireBlob ex_db ex_blob_id (ex_storage (replicate 32 3))
      = Return (Inr ex_object)"
    by (simp add: DownloadEntireBlob_def ex_find_blob ex_storage_def ex_blob_def)
  then show ?thesis by (simp add: verify_blob_def ex_paranoia)
qed

lemma ex_stdin_lines:
  "split_lines (CHR 0x0A # ''0101010101010101010101010101010101010101010101010101010101010101''
                @ CHR 0x0A # ''xx'' @ CHR 0x0A
                # ''0101010101010101010101010101010101010101010101010101010101010101'' @ [CHR 0x0A])
     = [[], ''0101010101010101010101010101010101010101010101010101010101010101'']
       @ ''xx'' # [''0101010101010101010101010101010101010101010101010101010101010101'', []]"
  by simp

theorem paranoia_lines_input_witness:
  "BlobParanoia ex_env ex_db ''aa''
     (CHR 0x0A # ''0101010101010101010101010101010101010101010101010101010101010101''
      @ CHR 0x0A # ''xx'' @ CHR 0x0A
      # ''0101010101010101010101010101010101010101010101010101010101010101'' @ [CHR 0x0A])
     = ([ex_blob_id], Panic LineLength)
 \<and> length ex_blob_id = 32"
proof -
  let ?good = "''0101010101010101010101010101010101010101010101010101010101010101''"
  let ?stdin = "CHR 0x0A # ?good @ CHR 0x0A # ''xx'' @ CHR 0x0A # ?good @ [CHR 0x0A]"
  let ?v = "verify_blob ex_env ex_db (ex_storage (replicate 32 3))"
  note t = paranoia_lines_input [of ?v _ 0 ?good "[[], ?good]" "''xx''" "[?good, []]"
      ex_env "''aa''" "ex_storage (replicate 32 3)" ex_db ?stdin]
  have nil: "line_ids [] = []" by (simp add: line_ids_def List.map_filter_simps)
  have "?good \<noteq> []" by simp
  then have "line_ids [?good] = ex_blob_id # line_ids []"
    using ex_line_decodes by (rule line_ids_Cons)
  then have ids: "line_ids [[], ?good] = [ex_blob_id]"
    by (simp only: line_ids_Cons_blank nil)
  have pre: "list_all (\<lambda>l. l = [] \<or> well_formed_line l) [[], ?good]"
    using ex_line_well_formed by simp
  have ver: "list_all (\<lambda>blobID. is_Return (?v blobID)) (line_ids [[], ?good])"
    by (simp add: ids ex_verify)
  have bad: "''xx'' \<noteq> [] \<and> \<not> well_formed_line ''xx''"
    by (simp add: well_formed_line_def)
  have sel: "StorageSelect ex_env ''aa'' = Some (ex_storage (replicate 32 3))"
    by (simp add: ex_env_def)
  from t pre ver bad have
    r: "fst (paranoia_lines ?v ([[], ?good] @ ''xx'' # [?good, []]) 0) = line_ids [[], ?good]
      \<and> snd (paranoia_lines ?v ([[], ?good] @ ''xx'' # [?good, []]) 0)
          = (if length ''xx'' \<noteq> 64 then Panic LineLength else Panic HexError)"
    by blast
  from t sel have "BlobParanoia ex_env ex_db ''aa'' ?stdin = paranoia_lines ?v (split_lines ?stdin) 0"
    by blast
  then have "BlobParanoia ex_env ex_db ''aa'' ?stdin
      = paranoia_lines ?v ([[], ?good] @ ''xx'' # [?good, []]) 0"
    by (simp only: ex_stdin_lines)
  moreover have "length ex_blob_id = 32" by (simp add: ex_blob_id_def)
  ultimately show ?thesis using r ids by (simp add: prod_eq_iff)
qed

end
